theory Spec2Isabelle
  imports Complex_Main "HOL-Library.Monad_Syntax"
begin

section \<open>Python values\<close>

text \<open>
  The records handled by the travel-guide backend are loosely typed Python dictionaries
  (JSON decoded from the language model, BSON documents of the store).  A value is one of
  the shapes below.  Text is a \<^typ>\<open>string\<close>; one \<^typ>\<open>char\<close> stands for one code point of
  the Python \<open>str\<close> (code points below 256).  Numbers that Python holds as \<open>float\<close> are
  exact rationals here.  A dictionary at the top level of a record is a map from field
  names to values; a nested dictionary is an association list.
\<close>

datatype pyval =
    PNone
  | PBool bool
  | PInt int
  | PFloat rat
  | PStr string
  | PList "pyval list"
  | PDict "(string \<times> pyval) list"
  | PDateTime int
  | PObjectId string

type_synonym doc = "string \<rightharpoonup> pyval"

fun is_str :: "pyval \<Rightarrow> bool" where
  "is_str (PStr s) = True"
| "is_str v = False"

fun is_list :: "pyval \<Rightarrow> bool" where
  "is_list (PList xs) = True"
| "is_list v = False"

text \<open>A sequence of text: a list all of whose elements are strings.\<close>

fun is_text_list :: "pyval \<Rightarrow> bool" where
  "is_text_list (PList xs) = list_all is_str xs"
| "is_text_list v = False"

section \<open>String primitives\<close>

text \<open>
  \<open>str.isspace\<close> on one code point below 256: the ASCII controls 9 to 13 and 28 to 31,
  the space, NEL (133) and the no-break space (160).
\<close>

definition py_isspace :: "char \<Rightarrow> bool" where
  "py_isspace c =
     (let n = (of_char c :: nat)
      in (9 \<le> n \<and> n \<le> 13) \<or> (28 \<le> n \<and> n \<le> 32) \<or> n = 133 \<or> n = 160)"

text \<open>\<open>s.strip()\<close>: whitespace removed at both ends.\<close>

definition strip :: "string \<Rightarrow> string" where
  "strip s = rev (dropWhile py_isspace (rev (dropWhile py_isspace s)))"

text \<open>
  \<open>s.split(sep)\<close> for a one-character separator: the pieces between the separators, in
  order; the empty string gives one empty piece.
\<close>

fun split_sep :: "char \<Rightarrow> string \<Rightarrow> string list" where
  "split_sep sep [] = [[]]"
| "split_sep sep (c # cs) =
     (if c = sep then [] # split_sep sep cs
      else (case split_sep sep cs of
              [] \<Rightarrow> [[c]]
            | p # ps \<Rightarrow> (c # p) # ps))"

section \<open>The suggestion normalizer\<close>

text \<open>
  \<^verbatim>\<open>
  def normalize_suggestion_data(suggestion: dict) -> dict:
      array_fields = ['category', 'highlights', 'best_months',
                      'popular_activities', 'travel_tips']
      for field in array_fields:
          if field in suggestion:
              value = suggestion[field]
              if isinstance(value, str):
                  if ',' in value:
                      suggestion[field] = [item.strip() for item in value.split(',')
                                           if item.strip()]
                  else:
                      suggestion[field] = [value.strip()] if value.strip() else []
              elif not isinstance(value, list):
                  suggestion[field] = []
      for field in array_fields:
          if field not in suggestion:
              suggestion[field] = []
      return suggestion
  \<close>
  The dictionary is updated in place in the source; the model returns the updated map.
\<close>

definition array_fields :: "string list" where
  "array_fields =
     [''category'', ''highlights'', ''best_months'', ''popular_activities'', ''travel_tips'']"

text \<open>The body of the first loop, for one field.\<close>

definition coerce_field :: "string \<Rightarrow> doc \<Rightarrow> doc" where
  "coerce_field field suggestion =
     (case suggestion field of
        None \<Rightarrow> suggestion
      | Some v \<Rightarrow>
          (case v of
             PStr s \<Rightarrow>
               (if CHR '','' \<in> set s
                then suggestion(field \<mapsto>
                       PList (map (\<lambda>item. PStr (strip item))
                                (filter (\<lambda>item. strip item \<noteq> []) (split_sep CHR '','' s))))
                else suggestion(field \<mapsto>
                       (if strip s \<noteq> [] then PList [PStr (strip s)] else PList [])))
           | PList xs \<Rightarrow> suggestion
           | _ \<Rightarrow> suggestion(field \<mapsto> PList [])))"

text \<open>The body of the second loop, for one field.\<close>

definition ensure_field :: "string \<Rightarrow> doc \<Rightarrow> doc" where
  "ensure_field field suggestion =
     (if suggestion field = None then suggestion(field \<mapsto> PList []) else suggestion)"

definition normalize_suggestion_data :: "doc \<Rightarrow> doc" where
  "normalize_suggestion_data suggestion =
     fold ensure_field array_fields (fold coerce_field array_fields suggestion)"

section \<open>Numbers, rounding and text case\<close>

text \<open>
  Python's \<open>int\<close>, \<open>float\<close> and \<open>bool\<close> take part in arithmetic; every other value raises
  \<open>TypeError\<close> there.  \<open>None\<close> of an \<open>option\<close> result below always stands for an exception
  raised by the modelled expression (\<open>KeyError\<close>, \<open>IndexError\<close>, \<open>TypeError\<close> or
  \<open>AttributeError\<close>).
\<close>

fun num_of :: "pyval \<Rightarrow> rat option" where
  "num_of (PInt n) = Some (of_int n)"
| "num_of (PFloat q) = Some q"
| "num_of (PBool b) = Some (if b then 1 else 0)"
| "num_of v = None"

text \<open>\<open>round(x)\<close>: to the nearest integer, a tie going to the even neighbour.\<close>

definition py_round :: "rat \<Rightarrow> int" where
  "py_round x =
     (let f = \<lfloor>x\<rfloor>; d = x - of_int f
      in if d < 1 / 2 then f else if 1 / 2 < d then f + 1 else if even f then f else f + 1)"

text \<open>\<open>round(x, 1)\<close> on the exact value of a float.\<close>

definition round1 :: "rat \<Rightarrow> rat" where
  "round1 x = of_int (py_round (x * 10)) / 10"

text \<open>\<open>round(v, 1)\<close>: an \<open>int\<close> (or \<open>bool\<close>) comes back as an \<open>int\<close>, a float rounded.\<close>

fun py_round1 :: "pyval \<Rightarrow> pyval option" where
  "py_round1 (PInt n) = Some (PInt n)"
| "py_round1 (PBool b) = Some (PInt (if b then 1 else 0))"
| "py_round1 (PFloat q) = Some (PFloat (round1 q))"
| "py_round1 v = None"

text \<open>
  \<open>str.lower\<close> and the first-letter upper-casing of \<open>str.capitalize\<close>, per code point.
  The three code points below 256 whose upper case lies beyond 255 (181, 223, 255) are
  left as they are.
\<close>

definition py_lower_char :: "char \<Rightarrow> char" where
  "py_lower_char c =
     (let n = (of_char c :: nat)
      in if (65 \<le> n \<and> n \<le> 90) \<or> (192 \<le> n \<and> n \<le> 222 \<and> n \<noteq> 215)
         then char_of (n + 32) else c)"

definition py_upper_char :: "char \<Rightarrow> char" where
  "py_upper_char c =
     (let n = (of_char c :: nat)
      in if (97 \<le> n \<and> n \<le> 122) \<or> (224 \<le> n \<and> n \<le> 254 \<and> n \<noteq> 247)
         then char_of (n - 32) else c)"

definition lower :: "string \<Rightarrow> string" where
  "lower s = map py_lower_char s"

fun capitalize :: "string \<Rightarrow> string" where
  "capitalize [] = []"
| "capitalize (c # cs) = py_upper_char c # map py_lower_char cs"

text \<open>\<open>str(n)\<close> for a natural number.\<close>

fun str_nat :: "nat \<Rightarrow> string" where
  "str_nat n =
     (if n < 10 then [char_of (48 + n)]
      else str_nat (n div 10) @ [char_of (48 + n mod 10)])"

declare str_nat.simps [simp del]

section \<open>Reading JSON values\<close>

text \<open>\<open>v[key]\<close> for a text key: defined on a dictionary that has the key.\<close>

fun getitem :: "pyval \<Rightarrow> string \<Rightarrow> pyval option" where
  "getitem (PDict kvs) k = map_of kvs k"
| "getitem v k = None"

text \<open>\<open>v[0]\<close>: the first element of a non-empty list, the first character of a string.\<close>

fun getindex0 :: "pyval \<Rightarrow> pyval option" where
  "getindex0 (PList (x # xs)) = Some x"
| "getindex0 (PStr (c # cs)) = Some (PStr [c])"
| "getindex0 v = None"

text \<open>\<open>v.get(key, default)\<close>: only a dictionary has the method.\<close>

fun dict_get :: "pyval \<Rightarrow> string \<Rightarrow> pyval \<Rightarrow> pyval option" where
  "dict_get (PDict kvs) k dflt = Some (case map_of kvs k of None \<Rightarrow> dflt | Some v \<Rightarrow> v)"
| "dict_get v k dflt = None"

text \<open>\<open>v.capitalize()\<close>: only text has the method.\<close>

fun py_capitalize :: "pyval \<Rightarrow> pyval option" where
  "py_capitalize (PStr s) = Some (PStr (capitalize s))"
| "py_capitalize v = None"

text \<open>\<open>v // 1000\<close>.\<close>

fun floordiv_1000 :: "pyval \<Rightarrow> pyval option" where
  "floordiv_1000 (PInt n) = Some (PInt (n div 1000))"
| "floordiv_1000 (PBool b) = Some (PInt 0)"
| "floordiv_1000 (PFloat q) = Some (PFloat (of_int \<lfloor>q / 1000\<rfloor>))"
| "floordiv_1000 v = None"

text \<open>
  The values a \<open>for\<close> loop draws from \<open>v\<close>: the elements of a list, the keys of a
  dictionary, the characters of a string; nothing else read from JSON is iterable.
\<close>

fun iter_items :: "pyval \<Rightarrow> pyval list option" where
  "iter_items (PList xs) = Some xs"
| "iter_items (PDict kvs) = Some (map (\<lambda>kv. PStr (fst kv)) kvs)"
| "iter_items (PStr s) = Some (map (\<lambda>c. PStr [c]) s)"
| "iter_items v = None"

section \<open>The weather service\<close>

text \<open>
  Exceptions of the HTTP client, as the handlers of the service tell them apart: a response
  with an error status, a timeout, and everything else.
\<close>

datatype exn = HTTPStatusError nat | TimeoutException | OtherException string

datatype http_request = CurrentRequest string | ForecastRequest string int

text \<open>
  What the service reads from outside itself.  \<open>utcnow n\<close> is the \<open>n\<close>-th reading of
  \<open>datetime.utcnow()\<close>, in microseconds.  \<open>http_get n req\<close> is the outcome of the \<open>n\<close>-th
  upstream request (\<open>client.get\<close>, \<open>raise_for_status\<close> and \<open>response.json()\<close> together):
  the decoded body, or the exception raised.  \<open>fmt_date\<close> and \<open>fmt_day_name\<close> are
  \<open>datetime.fromtimestamp(dt)\<close> printed with \<open>%Y-%m-%d\<close> and \<open>%A\<close>.  \<open>set_iter xs\<close> is
  the order in which Python iterates over \<open>set(xs)\<close>; it depends on the hashes of the
  elements and not on their order in \<open>xs\<close>.
\<close>

record wenv =
  utcnow :: "nat \<Rightarrow> int"
  http_get :: "nat \<Rightarrow> http_request \<Rightarrow> exn + pyval"
  fmt_date :: "pyval \<Rightarrow> string option"
  fmt_day_name :: "pyval \<Rightarrow> string option"
  set_iter :: "pyval list \<Rightarrow> pyval list"

text \<open>
  The service object: the configured key and the cache, a map from cache keys to a value
  and the time it was fetched.  Two counters record what the service did: how often it
  read the clock, and the upstream requests it sent, in order.
\<close>

record weather_service =
  api_key :: string
  cache :: "string \<rightharpoonup> pyval \<times> int"
  clock_reads :: nat
  requests :: "http_request list"

definition cache_duration :: int where
  "cache_duration = 3600000000"

definition read_clock :: "wenv \<Rightarrow> weather_service \<Rightarrow> int \<times> weather_service" where
  "read_clock env svc = (utcnow env (clock_reads svc), svc\<lparr>clock_reads := Suc (clock_reads svc)\<rparr>)"

text \<open>\<^verbatim>\<open>return f"{city.lower().strip()}_{weather_type}"\<close>\<close>

definition get_cache_key :: "string \<Rightarrow> string \<Rightarrow> string" where
  "get_cache_key city weather_type = strip (lower city) @ ''_'' @ weather_type"

text \<open>\<^verbatim>\<open>return datetime.utcnow() - timestamp < self.cache_duration\<close>\<close>

definition is_cache_valid :: "wenv \<Rightarrow> int \<Rightarrow> weather_service \<Rightarrow> bool \<times> weather_service" where
  "is_cache_valid env timestamp svc =
     (case read_clock env svc of (now, svc') \<Rightarrow> (now - timestamp < cache_duration, svc'))"

text \<open>
  \<^verbatim>\<open>
  if cache_key in self.cache:
      cached_data, timestamp = self.cache[cache_key]
      if self._is_cache_valid(timestamp):
          return cached_data
  \<close>
  The result is the cached value to return, if any.
\<close>

definition cache_lookup :: "wenv \<Rightarrow> string \<Rightarrow> weather_service \<Rightarrow> pyval option \<times> weather_service" where
  "cache_lookup env cache_key svc =
     (case cache svc cache_key of
        None \<Rightarrow> (None, svc)
      | Some (cached_data, timestamp) \<Rightarrow>
          (case is_cache_valid env timestamp svc of
             (valid, svc') \<Rightarrow> (if valid then Some cached_data else None, svc')))"

text \<open>
  The fields of the snapshot built from the upstream body, all but the time stamp:
  \<^verbatim>\<open>
  weather_data = {
      "city": data["name"],
      "country": data["sys"]["country"],
      "temperature": round(data["main"]["temp"], 1),
      "feels_like": round(data["main"]["feels_like"], 1),
      "temp_min": round(data["main"]["temp_min"], 1),
      "temp_max": round(data["main"]["temp_max"], 1),
      "humidity": data["main"]["humidity"],
      "pressure": data["main"]["pressure"],
      "description": data["weather"][0]["description"].capitalize(),
      "icon": data["weather"][0]["icon"],
      "wind_speed": round(data["wind"]["speed"], 1),
      "clouds": data["clouds"]["all"],
      "visibility": data.get("visibility", 0) // 1000,
      "timestamp": datetime.utcnow().isoformat()
  }
  \<close>
\<close>

definition current_fields :: "pyval \<Rightarrow> (string \<times> pyval) list option" where
  "current_fields data = do {
     name \<leftarrow> getitem data ''name'';
     sys \<leftarrow> getitem data ''sys'';
     country \<leftarrow> getitem sys ''country'';
     main \<leftarrow> getitem data ''main'';
     temperature \<leftarrow> Option.bind (getitem main ''temp'') py_round1;
     feels_like \<leftarrow> Option.bind (getitem main ''feels_like'') py_round1;
     temp_min \<leftarrow> Option.bind (getitem main ''temp_min'') py_round1;
     temp_max \<leftarrow> Option.bind (getitem main ''temp_max'') py_round1;
     humidity \<leftarrow> getitem main ''humidity'';
     pressure \<leftarrow> getitem main ''pressure'';
     weather \<leftarrow> getitem data ''weather'';
     weather0 \<leftarrow> getindex0 weather;
     description \<leftarrow> Option.bind (getitem weather0 ''description'') py_capitalize;
     icon \<leftarrow> getitem weather0 ''icon'';
     wind \<leftarrow> getitem data ''wind'';
     wind_speed \<leftarrow> Option.bind (getitem wind ''speed'') py_round1;
     clouds \<leftarrow> getitem data ''clouds'';
     clouds_all \<leftarrow> getitem clouds ''all'';
     visibility \<leftarrow> Option.bind (dict_get data ''visibility'' (PInt 0)) floordiv_1000;
     Some [(''city'', name), (''country'', country), (''temperature'', temperature),
           (''feels_like'', feels_like), (''temp_min'', temp_min), (''temp_max'', temp_max),
           (''humidity'', humidity), (''pressure'', pressure), (''description'', description),
           (''icon'', icon), (''wind_speed'', wind_speed), (''clouds'', clouds_all),
           (''visibility'', visibility)]
   }"

text \<open>
  The body of the \<open>try\<close> block of \<open>get_current_weather\<close>: the request, the formatting and
  the store into the cache.  \<open>Inl\<close> is the exception that leaves the block.  The time stamp
  of the snapshot stands for its ISO text.
\<close>

definition fetch_current ::
  "wenv \<Rightarrow> string \<Rightarrow> string \<Rightarrow> weather_service \<Rightarrow> (exn + pyval) \<times> weather_service" where
  "fetch_current env city cache_key svc =
     (let req = CurrentRequest city;
          svc1 = svc\<lparr>requests := requests svc @ [req]\<rparr>
      in case http_get env (length (requests svc)) req of
           Inl e \<Rightarrow> (Inl e, svc1)
         | Inr data \<Rightarrow>
             (case current_fields data of
                None \<Rightarrow> (Inl (OtherException ''format''), svc1)
              | Some entries \<Rightarrow>
                  (case read_clock env svc1 of
                     (stamp, svc2) \<Rightarrow>
                       (case read_clock env svc2 of
                          (fetched_at, svc3) \<Rightarrow>
                            (let weather_data = PDict (entries @ [(''timestamp'', PDateTime stamp)])
                             in (Inr weather_data,
                                 svc3\<lparr>cache := (cache svc3)(cache_key \<mapsto> (weather_data, fetched_at))\<rparr>))))))"

text \<open>
  The three handlers of either operation: each logs and returns \<open>None\<close>.
  \<^verbatim>\<open>
  except httpx.HTTPStatusError as e: ...; return None
  except httpx.TimeoutException: ...; return None
  except Exception as e: ...; return None
  \<close>
  The result of an operation is \<open>Inr\<close> of what it returns, or \<open>Inl\<close> of the exception it
  lets through to its caller.
\<close>

fun handle_fetch :: "(exn + pyval) \<times> weather_service \<Rightarrow> (exn + pyval option) \<times> weather_service" where
  "handle_fetch (Inl (HTTPStatusError code), svc) = (Inr None, svc)"
| "handle_fetch (Inl TimeoutException, svc) = (Inr None, svc)"
| "handle_fetch (Inl (OtherException e), svc) = (Inr None, svc)"
| "handle_fetch (Inr weather_data, svc) = (Inr (Some weather_data), svc)"

definition get_current_weather ::
  "wenv \<Rightarrow> string \<Rightarrow> weather_service \<Rightarrow> (exn + pyval option) \<times> weather_service" where
  "get_current_weather env city svc =
     (if api_key svc = [] then (Inr None, svc)
      else
        (let cache_key = get_cache_key city ''current''
         in case cache_lookup env cache_key svc of
              (Some cached_data, svc1) \<Rightarrow> (Inr (Some cached_data), svc1)
            | (None, svc1) \<Rightarrow> handle_fetch (fetch_current env city cache_key svc1)))"

subsection \<open>Forecast aggregation\<close>

text \<open>
  \<open>min(xs)\<close> and \<open>max(xs)\<close> on numbers: the first least and the first greatest element.
  A value that is not a number makes either a comparison or the arithmetic that follows in
  the caller raise \<open>TypeError\<close>.
\<close>

fun least :: "pyval \<Rightarrow> pyval list \<Rightarrow> pyval option" where
  "least best [] = Some best"
| "least best (x # xs) =
     (case (num_of x, num_of best) of
        (Some a, Some b) \<Rightarrow> least (if a < b then x else best) xs
      | _ \<Rightarrow> None)"

fun greatest :: "pyval \<Rightarrow> pyval list \<Rightarrow> pyval option" where
  "greatest best [] = Some best"
| "greatest best (x # xs) =
     (case (num_of x, num_of best) of
        (Some a, Some b) \<Rightarrow> greatest (if b < a then x else best) xs
      | _ \<Rightarrow> None)"

definition py_min :: "pyval list \<Rightarrow> pyval option" where
  "py_min xs =
     (case xs of
        [] \<Rightarrow> None
      | x # rest \<Rightarrow> (case num_of x of None \<Rightarrow> None | Some a \<Rightarrow> least x rest))"

definition py_max :: "pyval list \<Rightarrow> pyval option" where
  "py_max xs =
     (case xs of
        [] \<Rightarrow> None
      | x # rest \<Rightarrow> (case num_of x of None \<Rightarrow> None | Some a \<Rightarrow> greatest x rest))"

text \<open>\<open>sum(xs)\<close>, as an exact number.\<close>

definition py_sum :: "pyval list \<Rightarrow> rat option" where
  "py_sum xs = map_option sum_list (those (map num_of xs))"

text \<open>
  \<^verbatim>\<open>description = max(set(descriptions), key=descriptions.count)\<close>
  A list or a dictionary is not hashable and cannot enter a set.  \<open>count\<close> compares with
  \<open>==\<close>, under which numbers are equal by value.  \<open>max\<close> keeps the first element of the
  iteration whose key is greatest.
\<close>

fun hashable :: "pyval \<Rightarrow> bool" where
  "hashable (PList xs) = False"
| "hashable (PDict kvs) = False"
| "hashable v = True"

definition py_eq :: "pyval \<Rightarrow> pyval \<Rightarrow> bool" where
  "py_eq a b = (case (num_of a, num_of b) of (Some x, Some y) \<Rightarrow> x = y | _ \<Rightarrow> a = b)"

definition py_count :: "pyval list \<Rightarrow> pyval \<Rightarrow> nat" where
  "py_count xs x = length (filter (py_eq x) xs)"

fun max_by :: "('a \<Rightarrow> nat) \<Rightarrow> 'a \<Rightarrow> 'a list \<Rightarrow> 'a" where
  "max_by key best [] = best"
| "max_by key best (x # xs) = max_by key (if key best < key x then x else best) xs"

definition most_common :: "wenv \<Rightarrow> pyval list \<Rightarrow> pyval option" where
  "most_common env descriptions =
     (if list_all hashable descriptions
      then (case set_iter env descriptions of
              [] \<Rightarrow> None
            | d # ds \<Rightarrow> Some (max_by (py_count descriptions) d ds))
      else None)"

text \<open>
  \<^verbatim>\<open>
  def _aggregate_day_forecast(self, day_data: list) -> Dict[str, Any]:
      if not day_data:
          return {}
      temps = [item["main"]["temp"] for item in day_data]
      descriptions = [item["weather"][0]["description"] for item in day_data]
      description = max(set(descriptions), key=descriptions.count)
      return {
          "date": datetime.fromtimestamp(day_data[0]["dt"]).strftime("%Y-%m-%d"),
          "day_name": datetime.fromtimestamp(day_data[0]["dt"]).strftime("%A"),
          "temp_min": round(min(temps), 1),
          "temp_max": round(max(temps), 1),
          "temp_avg": round(sum(temps) / len(temps), 1),
          "description": description.capitalize(),
          "icon": day_data[len(day_data)//2]["weather"][0]["icon"],
          "humidity": round(sum(item["main"]["humidity"] for item in day_data) / len(day_data)),
          "wind_speed": round(sum(item["wind"]["speed"] for item in day_data) / len(day_data), 1),
          "pop": round(max(item.get("pop", 0) for item in day_data) * 100)
      }
  \<close>
\<close>

definition main_field :: "string \<Rightarrow> pyval \<Rightarrow> pyval option" where
  "main_field k item = Option.bind (getitem item ''main'') (\<lambda>m. getitem m k)"

definition weather0_field :: "string \<Rightarrow> pyval \<Rightarrow> pyval option" where
  "weather0_field k item =
     Option.bind (Option.bind (getitem item ''weather'') getindex0) (\<lambda>w. getitem w k)"

definition wind_speed_field :: "pyval \<Rightarrow> pyval option" where
  "wind_speed_field item = Option.bind (getitem item ''wind'') (\<lambda>w. getitem w ''speed'')"

definition aggregate_day_forecast :: "wenv \<Rightarrow> pyval list \<Rightarrow> pyval option" where
  "aggregate_day_forecast env day_data =
     (if day_data = [] then Some (PDict [])
      else do {
        temps \<leftarrow> those (map (main_field ''temp'') day_data);
        descriptions \<leftarrow> those (map (weather0_field ''description'') day_data);
        description \<leftarrow> most_common env descriptions;
        dt \<leftarrow> getitem (hd day_data) ''dt'';
        date \<leftarrow> fmt_date env dt;
        day_name \<leftarrow> fmt_day_name env dt;
        temp_min \<leftarrow> Option.bind (py_min temps) py_round1;
        temp_max \<leftarrow> Option.bind (py_max temps) py_round1;
        temp_sum \<leftarrow> py_sum temps;
        capitalized \<leftarrow> py_capitalize description;
        icon \<leftarrow> weather0_field ''icon'' (day_data ! (length day_data div 2));
        humidities \<leftarrow> those (map (main_field ''humidity'') day_data);
        humidity_sum \<leftarrow> py_sum humidities;
        speeds \<leftarrow> those (map wind_speed_field day_data);
        speed_sum \<leftarrow> py_sum speeds;
        pops \<leftarrow> those (map (\<lambda>item. dict_get item ''pop'' (PInt 0)) day_data);
        pop_max \<leftarrow> Option.bind (py_max pops) num_of;
        Some (PDict
          [(''date'', PStr date),
           (''day_name'', PStr day_name),
           (''temp_min'', temp_min),
           (''temp_max'', temp_max),
           (''temp_avg'', PFloat (round1 (temp_sum / of_nat (length temps)))),
           (''description'', capitalized),
           (''icon'', icon),
           (''humidity'', PInt (py_round (humidity_sum / of_nat (length day_data)))),
           (''wind_speed'', PFloat (round1 (speed_sum / of_nat (length day_data)))),
           (''pop'', PInt (py_round (pop_max * 100)))])
      })"

text \<open>
  The grouping loop of \<open>get_forecast\<close>; a calendar date is held as its \<open>%Y-%m-%d\<close> text.
  \<^verbatim>\<open>
  for item in data["list"]:
      forecast_date = datetime.fromtimestamp(item["dt"]).date()
      if current_day != forecast_date:
          if day_data:
              daily_forecasts.append(self._aggregate_day_forecast(day_data))
          current_day = forecast_date
          day_data = [item]
      else:
          day_data.append(item)
  if day_data:
      daily_forecasts.append(self._aggregate_day_forecast(day_data))
  \<close>
\<close>

fun group_days ::
  "wenv \<Rightarrow> pyval list \<Rightarrow> pyval list \<Rightarrow> string option \<Rightarrow> pyval list \<Rightarrow> pyval list option" where
  "group_days env [] daily_forecasts current_day day_data =
     (if day_data \<noteq> []
      then map_option (\<lambda>a. daily_forecasts @ [a]) (aggregate_day_forecast env day_data)
      else Some daily_forecasts)"
| "group_days env (item # items) daily_forecasts current_day day_data =
     (case Option.bind (getitem item ''dt'') (fmt_date env) of
        None \<Rightarrow> None
      | Some forecast_date \<Rightarrow>
          (if current_day \<noteq> Some forecast_date
           then (if day_data \<noteq> []
                 then (case aggregate_day_forecast env day_data of
                         None \<Rightarrow> None
                       | Some a \<Rightarrow>
                           group_days env items (daily_forecasts @ [a]) (Some forecast_date) [item])
                 else group_days env items daily_forecasts (Some forecast_date) [item])
           else group_days env items daily_forecasts current_day (day_data @ [item])))"

text \<open>
  The forecast bundle built from the upstream body, all but the time stamp:
  \<^verbatim>\<open>
  forecast_data = {
      "city": data["city"]["name"],
      "country": data["city"]["country"],
      "forecasts": daily_forecasts[:days],
      "timestamp": datetime.utcnow().isoformat()
  }
  \<close>
\<close>

definition forecast_fields :: "wenv \<Rightarrow> nat \<Rightarrow> pyval \<Rightarrow> (string \<times> pyval) list option" where
  "forecast_fields env days data = do {
     listing \<leftarrow> getitem data ''list'';
     items \<leftarrow> iter_items listing;
     daily_forecasts \<leftarrow> group_days env items [] None [];
     place \<leftarrow> getitem data ''city'';
     name \<leftarrow> getitem place ''name'';
     country \<leftarrow> getitem place ''country'';
     Some [(''city'', name), (''country'', country),
           (''forecasts'', PList (take days daily_forecasts))]
   }"

text \<open>The body of the \<open>try\<close> block of \<open>get_forecast\<close>; the request asks for \<open>days * 8\<close> readings.\<close>

definition fetch_forecast ::
  "wenv \<Rightarrow> string \<Rightarrow> nat \<Rightarrow> string \<Rightarrow> weather_service \<Rightarrow> (exn + pyval) \<times> weather_service" where
  "fetch_forecast env city days cache_key svc =
     (let req = ForecastRequest city (int days * 8);
          svc1 = svc\<lparr>requests := requests svc @ [req]\<rparr>
      in case http_get env (length (requests svc)) req of
           Inl e \<Rightarrow> (Inl e, svc1)
         | Inr data \<Rightarrow>
             (case forecast_fields env days data of
                None \<Rightarrow> (Inl (OtherException ''format''), svc1)
              | Some entries \<Rightarrow>
                  (case read_clock env svc1 of
                     (stamp, svc2) \<Rightarrow>
                       (case read_clock env svc2 of
                          (fetched_at, svc3) \<Rightarrow>
                            (let forecast_data = PDict (entries @ [(''timestamp'', PDateTime stamp)])
                             in (Inr forecast_data,
                                 svc3\<lparr>cache := (cache svc3)(cache_key \<mapsto> (forecast_data, fetched_at))\<rparr>))))))"

text \<open>
  \<^verbatim>\<open>
  if not self.api_key:
      return None
  days = max(1, min(days, 5))
  cache_key = self._get_cache_key(city, f"forecast_{days}")
  \<close>
  followed by the cache check and the \<open>try\<close> block, as in \<open>get_current_weather\<close>.
\<close>

definition get_forecast ::
  "wenv \<Rightarrow> string \<Rightarrow> int \<Rightarrow> weather_service \<Rightarrow> (exn + pyval option) \<times> weather_service" where
  "get_forecast env city days svc =
     (if api_key svc = [] then (Inr None, svc)
      else
        (let clamped = nat (max 1 (min days 5));
             cache_key = get_cache_key city (''forecast_'' @ str_nat clamped)
         in case cache_lookup env cache_key svc of
              (Some cached_data, svc1) \<Rightarrow> (Inr (Some cached_data), svc1)
            | (None, svc1) \<Rightarrow> handle_fetch (fetch_forecast env city clamped cache_key svc1)))"


section \<open>The suggestion generator\<close>

text \<open>
  What the generator and the listing route read from outside themselves.
  \<open>llm_reply n p\<close> is the text of the \<open>n\<close>-th chat completion, asked with prompt \<open>p\<close>, or
  the message of the exception the client raised.  \<open>json_loads\<close> is \<open>json.loads\<close>: the
  decoded value, or the message of the \<open>JSONDecodeError\<close>.  \<open>parse_int\<close> is \<open>int\<close> on text.
  \<open>sort_rating\<close> is the order in which the store returns documents under
  \<open>sort("rating", -1)\<close>.  \<open>new_object_id n\<close> is the \<open>n\<close>-th identifier the store issues.
  \<open>suggested_trip\<close> is the validation \<open>SuggestedTrip(**s)\<close>, \<open>None\<close> when it raises.
  \<open>py_str\<close> is \<open>str\<close>.  \<open>clock n\<close> is the \<open>n\<close>-th reading of \<open>datetime.utcnow()\<close>.
  The operations of the store itself are taken to succeed.
\<close>

datatype ai_exn = ValueError string | OtherError string

text \<open>The parts of the prompt that vary: the count and the criteria.\<close>

record prompt =
  p_count :: nat
  p_criteria :: "string list"

record aenv =
  llm_reply :: "nat \<Rightarrow> prompt \<Rightarrow> string + string"
  json_loads :: "string \<Rightarrow> string + pyval"
  parse_int :: "string \<Rightarrow> int option"
  sort_rating :: "doc list \<Rightarrow> doc list"
  new_object_id :: "nat \<Rightarrow> string"
  suggested_trip :: "doc \<Rightarrow> doc option"
  py_str :: "pyval \<Rightarrow> string"
  clock :: "nat \<Rightarrow> int"

text \<open>
  The collection of suggestions, and three records of what happened: the identifiers
  issued, the readings of the clock, and the prompts sent to the model, in order.
\<close>

record world =
  store :: "doc list"
  ids_issued :: nat
  ticks :: nat
  prompts :: "prompt list"

text \<open>\<open>if x:\<close> for an optional text: neither \<open>None\<close> nor empty.\<close>

fun truthy :: "string option \<Rightarrow> bool" where
  "truthy None = False"
| "truthy (Some s) = (s \<noteq> [])"

text \<open>
  \<^verbatim>\<open>
  filters = []
  if category:
      filters.append(f"category: {category}")
  if budget:
      filters.append(f"budget level: {budget}")
  if continent:
      filters.append(f"continent: {continent}")
  \<close>
\<close>

fun criterion :: "string \<Rightarrow> string option \<Rightarrow> string list" where
  "criterion label None = []"
| "criterion label (Some v) = (if v = [] then [] else [label @ '': '' @ v])"

definition build_prompt ::
  "string option \<Rightarrow> string option \<Rightarrow> string option \<Rightarrow> nat \<Rightarrow> prompt" where
  "build_prompt category budget continent count =
     \<lparr>p_count = count,
      p_criteria = criterion ''category'' category @ criterion ''budget level'' budget
                   @ criterion ''continent'' continent\<rparr>"

text \<open>\<open>s.split(sep)\<close> for a non-empty separator text.\<close>

function split_str :: "string \<Rightarrow> string \<Rightarrow> string \<Rightarrow> string list" where
  "split_str sep piece [] = [rev piece]"
| "split_str sep piece (c # cs) =
     (if sep \<noteq> [] \<and> take (length sep) (c # cs) = sep
      then rev piece # split_str sep [] (drop (length sep) (c # cs))
      else split_str sep (c # piece) cs)"
  by pat_completeness auto
termination
  by (relation "measure (\<lambda>(sep, piece, s). length s)") auto

text \<open>
  \<^verbatim>\<open>
  content = response.choices[0].message.content.strip()
  if content.startswith("```"):
      content = content.split("```")[1]
      if content.startswith("json"):
          content = content[4:]
      content = content.strip()
  \<close>
  A text that starts with the fence splits into at least two pieces.
\<close>

definition strip_fence :: "string \<Rightarrow> string" where
  "strip_fence reply =
     (let content = strip reply
      in if take 3 content = ''```''
         then (case split_str ''```'' [] content of
                 first # second # pieces \<Rightarrow>
                   strip (if take 4 second = ''json'' then drop 4 second else second)
               | _ \<Rightarrow> content)
         else content)"

text \<open>
  \<^verbatim>\<open>
  duration_str = suggestion.get('duration', '7 days')
  try:
      suggestion['duration_days'] = int(duration_str.split('-')[0].split()[0])
  except:
      suggestion['duration_days'] = 7
  \<close>
\<close>

definition first_token :: "string \<Rightarrow> string option" where
  "first_token s =
     (let t = dropWhile py_isspace s
      in if t = [] then None else Some (takeWhile (\<lambda>c. \<not> py_isspace c) t))"

definition duration_days_of :: "aenv \<Rightarrow> pyval \<Rightarrow> int" where
  "duration_days_of env duration_str =
     (case duration_str of
        PStr s \<Rightarrow>
          (case split_sep CHR ''-'' s of
             [] \<Rightarrow> 7
           | head # pieces \<Rightarrow>
               (case first_token head of
                  None \<Rightarrow> 7
                | Some token \<Rightarrow> (case parse_int env token of None \<Rightarrow> 7 | Some n \<Rightarrow> n)))
      | _ \<Rightarrow> 7)"

text \<open>
  The body of the loop over the decoded records:
  \<^verbatim>\<open>
  suggestion['is_featured'] = False
  suggestion['created_at'] = None
  suggestion['updated_at'] = None
  if 'rating' not in suggestion:
      suggestion['rating'] = 4.7
  if 'duration_days' not in suggestion:
      ...
  \<close>
\<close>

definition repair :: "aenv \<Rightarrow> doc \<Rightarrow> doc" where
  "repair env suggestion =
     (let s1 = suggestion(''is_featured'' \<mapsto> PBool False, ''created_at'' \<mapsto> PNone,
                          ''updated_at'' \<mapsto> PNone);
          s2 = (if s1 ''rating'' = None then s1(''rating'' \<mapsto> PFloat (47 / 10)) else s1)
      in if s2 ''duration_days'' = None
         then s2(''duration_days'' \<mapsto>
                PInt (duration_days_of env
                       (case s2 ''duration'' of None \<Rightarrow> PStr ''7 days'' | Some v \<Rightarrow> v)))
         else s2)"

text \<open>
  The records the loop \<open>for suggestion in suggestions\<close> works on.  Item assignment needs a
  dictionary; anything else drawn from the decoded value raises \<open>TypeError\<close>, as does a
  decoded value that cannot be iterated.  An empty dictionary or an empty text gives no
  iteration at all.
\<close>

fun as_doc :: "pyval \<Rightarrow> doc option" where
  "as_doc (PDict kvs) = Some (map_of kvs)"
| "as_doc v = None"

fun decoded_records :: "pyval \<Rightarrow> doc list option" where
  "decoded_records (PList items) = those (map as_doc items)"
| "decoded_records (PDict kvs) = (if kvs = [] then Some [] else None)"
| "decoded_records (PStr s) = (if s = [] then Some [] else None)"
| "decoded_records v = None"

text \<open>
  \<open>generate_suggestions\<close>: one chat completion, no retry.
  \<^verbatim>\<open>
  try:
      ...
      suggestions = json.loads(content)
      for suggestion in suggestions: ...
      return suggestions
  except json.JSONDecodeError as e:
      logger.error(f"Response content: {content}")
      raise ValueError(f"AI returned invalid JSON: {str(e)}")
  except Exception as e:
      raise
  \<close>
\<close>

definition generate_suggestions ::
  "aenv \<Rightarrow> string option \<Rightarrow> string option \<Rightarrow> string option \<Rightarrow> nat \<Rightarrow> world
     \<Rightarrow> (ai_exn + doc list) \<times> world" where
  "generate_suggestions env category budget continent count w =
     (let p = build_prompt category budget continent count;
          w1 = w\<lparr>prompts := prompts w @ [p]\<rparr>
      in case llm_reply env (length (prompts w)) p of
           Inl e \<Rightarrow> (Inl (OtherError e), w1)
         | Inr reply \<Rightarrow>
             (case json_loads env (strip_fence reply) of
                Inl msg \<Rightarrow> (Inl (ValueError (''AI returned invalid JSON: '' @ msg)), w1)
              | Inr decoded \<Rightarrow>
                  (case decoded_records decoded of
                     None \<Rightarrow> (Inl (OtherError ''TypeError''), w1)
                   | Some suggestions \<Rightarrow> (Inr (map (repair env) suggestions), w1))))"

section \<open>The listing route\<close>

text \<open>
  The parameters of the route.  Its parameter validation admits a \<open>limit\<close> from 1 to
  50 and a \<open>skip\<close> of at least 0 before the body runs.
\<close>

record request =
  category :: "string option"
  budget :: "string option"
  duration_min :: "int option"
  duration_max :: "int option"
  continent :: "string option"
  featured :: bool
  limit :: nat
  skip :: nat
  suggestion_id :: "string option"

text \<open>
  The query dictionary, one clause per key, in the order the keys are set:
  \<^verbatim>\<open>
  if featured:   query["is_featured"] = True
  if category:   query["category"] = {"$in": [category.lower()]}
  if budget:     query["budget"] = budget.lower()
  if continent:  query["continent"] = continent
  if duration_min is not None or duration_max is not None:
      query["duration_days"] = {"$gte": duration_min, "$lte": duration_max}   # each if given
  \<close>
\<close>

datatype clause =
    IsFeatured
  | CategoryIn string
  | BudgetIs string
  | ContinentIs string
  | DurationDays "int option" "int option"

type_synonym query = "clause list"

fun text_clause :: "(string \<Rightarrow> clause) \<Rightarrow> string option \<Rightarrow> query" where
  "text_clause mk None = []"
| "text_clause mk (Some v) = (if v = [] then [] else [mk v])"

definition build_query :: "request \<Rightarrow> query" where
  "build_query req =
     (if featured req then [IsFeatured] else [])
     @ text_clause (\<lambda>c. CategoryIn (lower c)) (category req)
     @ text_clause (\<lambda>b. BudgetIs (lower b)) (budget req)
     @ text_clause ContinentIs (continent req)
     @ (if duration_min req \<noteq> None \<or> duration_max req \<noteq> None
        then [DurationDays (duration_min req) (duration_max req)] else [])"

definition has_filters :: "request \<Rightarrow> bool" where
  "has_filters req \<longleftrightarrow>
     featured req \<or> truthy (category req) \<or> truthy (budget req) \<or> truthy (continent req)
     \<or> duration_min req \<noteq> None \<or> duration_max req \<noteq> None"

text \<open>\<^verbatim>\<open>effective_limit = min(limit, 10) if has_filters else limit\<close>\<close>

definition effective_limit :: "request \<Rightarrow> nat" where
  "effective_limit req = (if has_filters req then min (limit req) 10 else limit req)"

text \<open>
  How the store matches a document against a clause: a field equals a value when it is
  that value or an array holding it; a range holds of a number within it, and of an array
  with an element above the lower and an element below the upper bound.
\<close>

fun field_is :: "pyval option \<Rightarrow> pyval \<Rightarrow> bool" where
  "field_is None x = False"
| "field_is (Some (PList xs)) x = (x \<in> set xs)"
| "field_is (Some v) x = (v = x)"

fun stored_number :: "pyval \<Rightarrow> rat option" where
  "stored_number (PInt n) = Some (of_int n)"
| "stored_number (PFloat q) = Some q"
| "stored_number v = None"

definition at_least :: "int option \<Rightarrow> pyval \<Rightarrow> bool" where
  "at_least bound v =
     (case bound of
        None \<Rightarrow> True
      | Some a \<Rightarrow> (case stored_number v of None \<Rightarrow> False | Some q \<Rightarrow> of_int a \<le> q))"

definition at_most :: "int option \<Rightarrow> pyval \<Rightarrow> bool" where
  "at_most bound v =
     (case bound of
        None \<Rightarrow> True
      | Some b \<Rightarrow> (case stored_number v of None \<Rightarrow> False | Some q \<Rightarrow> q \<le> of_int b))"

fun field_within :: "pyval option \<Rightarrow> int option \<Rightarrow> int option \<Rightarrow> bool" where
  "field_within None lo hi = False"
| "field_within (Some (PList xs)) lo hi = (list_ex (at_least lo) xs \<and> list_ex (at_most hi) xs)"
| "field_within (Some v) lo hi = (at_least lo v \<and> at_most hi v)"

fun clause_matches :: "doc \<Rightarrow> clause \<Rightarrow> bool" where
  "clause_matches d IsFeatured = field_is (d ''is_featured'') (PBool True)"
| "clause_matches d (CategoryIn c) = field_is (d ''category'') (PStr c)"
| "clause_matches d (BudgetIs b) = field_is (d ''budget'') (PStr b)"
| "clause_matches d (ContinentIs c) = field_is (d ''continent'') (PStr c)"
| "clause_matches d (DurationDays lo hi) = field_within (d ''duration_days'') lo hi"

definition matches :: "query \<Rightarrow> doc \<Rightarrow> bool" where
  "matches q d = list_all (clause_matches d) q"

text \<open>\<^verbatim>\<open>find(query).sort("rating", -1).skip(skip).limit(n)\<close> and \<^verbatim>\<open>count_documents(query)\<close>\<close>

definition run_query :: "aenv \<Rightarrow> query \<Rightarrow> nat \<Rightarrow> nat \<Rightarrow> doc list \<Rightarrow> doc list" where
  "run_query env q skipped n docs = take n (drop skipped (sort_rating env (filter (matches q) docs)))"

definition count_documents :: "query \<Rightarrow> doc list \<Rightarrow> nat" where
  "count_documents q docs = length (filter (matches q) docs)"

text \<open>
  The stamping loops; \<open>is_featured\<close> is \<open>i < 6\<close> at cold start and \<open>False\<close> in the backfill.
  \<^verbatim>\<open>
  for i, suggestion in enumerate(ai_suggestions):
      suggestion['created_at'] = datetime.utcnow()
      suggestion['updated_at'] = datetime.utcnow()
      suggestion['is_featured'] = i < 6
  \<close>
\<close>

fun stamp :: "aenv \<Rightarrow> (nat \<Rightarrow> bool) \<Rightarrow> nat \<Rightarrow> doc list \<Rightarrow> world \<Rightarrow> doc list \<times> world" where
  "stamp env mark i [] w = ([], w)"
| "stamp env mark i (suggestion # rest) w =
     (let stamped = suggestion(''created_at'' \<mapsto> PDateTime (clock env (ticks w)),
                               ''updated_at'' \<mapsto> PDateTime (clock env (Suc (ticks w))),
                               ''is_featured'' \<mapsto> PBool (mark i))
      in case stamp env mark (Suc i) rest (w\<lparr>ticks := ticks w + 2\<rparr>) of
           (others, w') \<Rightarrow> (stamped # others, w'))"

text \<open>\<open>insert_many\<close>: a document without \<open>_id\<close> is given a new identifier.\<close>

fun insert_many :: "aenv \<Rightarrow> doc list \<Rightarrow> world \<Rightarrow> world" where
  "insert_many env [] w = w"
| "insert_many env (d # ds) w =
     (if d ''_id'' = None
      then insert_many env ds
             (w\<lparr>store := store w @ [d(''_id'' \<mapsto> PObjectId (new_object_id env (ids_issued w)))],
                ids_issued := Suc (ids_issued w)\<rparr>)
      else insert_many env ds (w\<lparr>store := store w @ [d]\<rparr>))"

text \<open>
  The cold start.  An exception of the generator is logged and dropped.
  \<^verbatim>\<open>
  total_in_db = await db[...].count_documents({})
  if total_in_db == 0:
      try:
          ai_suggestions = await ai_service.generate_suggestions(count=12)
          for i, suggestion in enumerate(ai_suggestions): ...
          if ai_suggestions:
              await db[...].insert_many(ai_suggestions)
      except Exception as e:
          logger.error(...)
  \<close>
\<close>

definition seed_if_empty :: "aenv \<Rightarrow> world \<Rightarrow> world" where
  "seed_if_empty env w =
     (if length (store w) = 0
      then (case generate_suggestions env None None None 12 w of
              (Inl e, w1) \<Rightarrow> w1
            | (Inr ai_suggestions, w1) \<Rightarrow>
                (case stamp env (\<lambda>i. i < 6) 0 ai_suggestions w1 of
                   (stamped, w2) \<Rightarrow> if stamped \<noteq> [] then insert_many env stamped w2 else w2))
      else w)"

text \<open>
  The backfill, entered when \<open>total == 0 and has_filters and not suggestion_id\<close>; it gives
  the page and the total that the response will carry.
  \<^verbatim>\<open>
  try:
      ai_suggestions = await ai_service.generate_suggestions(
          category=category, budget=budget, continent=continent,
          count=min(effective_limit, 6))
      for suggestion in ai_suggestions: ...          # is_featured = False
      if ai_suggestions:
          await db[...].insert_many(ai_suggestions)
          cursor = db[...].find(query).sort("rating", -1).limit(effective_limit)
          suggestions = await cursor.to_list(length=effective_limit)
          total = len(suggestions)
  except Exception as e:
      logger.error(...)
  \<close>
\<close>

definition backfill ::
  "aenv \<Rightarrow> request \<Rightarrow> doc list \<Rightarrow> nat \<Rightarrow> world \<Rightarrow> (doc list \<times> nat) \<times> world" where
  "backfill env req suggestions found w =
     (case generate_suggestions env (category req) (budget req) (continent req)
             (min (effective_limit req) 6) w of
        (Inl e, w1) \<Rightarrow> ((suggestions, found), w1)
      | (Inr ai_suggestions, w1) \<Rightarrow>
          (case stamp env (\<lambda>i. False) 0 ai_suggestions w1 of
             (stamped, w2) \<Rightarrow>
               if stamped \<noteq> []
               then (let w3 = insert_many env stamped w2;
                         page = run_query env (build_query req) 0 (effective_limit req) (store w3)
                     in ((page, length page), w3))
               else ((suggestions, found), w2)))"

datatype http_error = Http400 string | Http404 string | Http500 string

datatype filters_echo = ById string | ByQuery query

record response =
  resp_total :: nat
  resp_suggestions :: "doc list"
  resp_filters_applied :: filters_echo

text \<open>
  The end of the route: every record of the page is normalized, its identifier is turned
  into text, and the page is validated.  An exception here reaches the outer handler,
  which answers with status 500.
  \<^verbatim>\<open>
  for s in suggestions:
      s = normalize_suggestion_data(s)
      s['_id'] = str(s['_id'])
      normalized_suggestions.append(s)
  result = [SuggestedTrip(**s) for s in normalized_suggestions]
  \<close>
\<close>

definition with_text_id :: "aenv \<Rightarrow> doc \<Rightarrow> doc option" where
  "with_text_id env s =
     (let n = normalize_suggestion_data s
      in case n ''_id'' of
           None \<Rightarrow> None
         | Some oid \<Rightarrow> Some (n(''_id'' \<mapsto> PStr (py_str env oid))))"

definition present :: "aenv \<Rightarrow> doc list \<Rightarrow> http_error + doc list" where
  "present env suggestions =
     (case those (map (with_text_id env) suggestions) of
        None \<Rightarrow> Inl (Http500 ''KeyError'')
      | Some normalized_suggestions \<Rightarrow>
          (case those (map (suggested_trip env) normalized_suggestions) of
             None \<Rightarrow> Inl (Http500 ''ValidationError'')
           | Some result \<Rightarrow> Inr result))"

text \<open>\<open>ObjectId.is_valid\<close> on text: 24 hexadecimal digits.\<close>

definition is_hex_digit :: "char \<Rightarrow> bool" where
  "is_hex_digit c =
     (let n = (of_char c :: nat)
      in (48 \<le> n \<and> n \<le> 57) \<or> (65 \<le> n \<and> n \<le> 70) \<or> (97 \<le> n \<and> n \<le> 102))"

definition object_id_valid :: "string \<Rightarrow> bool" where
  "object_id_valid s \<longleftrightarrow> length s = 24 \<and> list_all is_hex_digit s"

text \<open>The branch for a direct lookup by identifier.\<close>

definition lookup_by_id :: "aenv \<Rightarrow> string \<Rightarrow> world \<Rightarrow> http_error + response" where
  "lookup_by_id env sid w =
     (if \<not> object_id_valid sid then Inl (Http400 ''Invalid suggestion ID format'')
      else (case find (\<lambda>d. d ''_id'' = Some (PObjectId (lower sid))) (store w) of
              None \<Rightarrow> Inl (Http404 ''Suggestion not found'')
            | Some suggestion \<Rightarrow>
                (case present env [suggestion] of
                   Inl e \<Rightarrow> Inl e
                 | Inr result \<Rightarrow>
                     Inr \<lparr>resp_total = 1, resp_suggestions = result,
                          resp_filters_applied = ById sid\<rparr>)))"

text \<open>
  The route \<open>get_suggestions\<close>: lookup by identifier when one is given; otherwise the
  cold start, the filtered query with its total, the backfill, and the response.
\<close>

definition get_suggestions :: "aenv \<Rightarrow> request \<Rightarrow> world \<Rightarrow> (http_error + response) \<times> world" where
  "get_suggestions env req w =
     (if truthy (suggestion_id req)
      then (case suggestion_id req of
              None \<Rightarrow> (Inl (Http500 ''unreachable''), w)
            | Some sid \<Rightarrow> (lookup_by_id env sid w, w))
      else
        (let q = build_query req;
             w1 = seed_if_empty env w;
             suggestions = run_query env q (skip req) (effective_limit req) (store w1);
             found = count_documents q (store w1)
         in case (if found = 0 \<and> has_filters req
                  then backfill env req suggestions found w1
                  else ((suggestions, found), w1)) of
              ((page, page_total), w2) \<Rightarrow>
                (case present env page of
                   Inl e \<Rightarrow> (Inl e, w2)
                 | Inr result \<Rightarrow>
                     (Inr \<lparr>resp_total = page_total, resp_suggestions = result,
                           resp_filters_applied = ByQuery q\<rparr>, w2))))"


section \<open>Typed views and the specification's reference functions\<close>







section \<open>Example data\<close>


definition example_wenv :: "(nat \<Rightarrow> int) \<Rightarrow> (exn + pyval) \<Rightarrow> (pyval list \<Rightarrow> pyval list) \<Rightarrow> wenv" where
  "example_wenv readings outcome order =
     \<lparr>utcnow = readings,
      http_get = (\<lambda>n req. outcome),
      fmt_date = (\<lambda>dt. if dt = PInt 1700000000 then Some ''2023-11-14'' else None),
      fmt_day_name = (\<lambda>dt. if dt = PInt 1700000000 then Some ''Tuesday'' else None),
      set_iter = order\<rparr>"

definition paris_snapshot :: pyval where
  "paris_snapshot = PDict [(''city'', PStr ''Paris''), (''temperature'', PFloat 11)]"

definition example_service :: "string \<Rightarrow> weather_service" where
  "example_service key =
     \<lparr>api_key = key,
      cache = [''paris_current'' \<mapsto> (paris_snapshot, 1700000000000000)],
      clock_reads = 0,
      requests = []\<rparr>"

definition unconfigured_service :: weather_service where
  "unconfigured_service = \<lparr>api_key = [], cache = Map.empty, clock_reads = 0, requests = []\<rparr>"

definition paris_body :: pyval where
  "paris_body =
     PDict [(''name'', PStr ''Paris''),
            (''sys'', PDict [(''country'', PStr ''FR'')]),
            (''main'', PDict [(''temp'', PFloat (913 / 50)), (''feels_like'', PFloat (179 / 10)),
                              (''temp_min'', PFloat 17), (''temp_max'', PInt 19),
                              (''humidity'', PInt 60), (''pressure'', PInt 1012)]),
            (''weather'', PList [PDict [(''description'', PStr ''light rain''), (''icon'', PStr ''10d'')]]),
            (''wind'', PDict [(''speed'', PFloat (18 / 5))]),
            (''clouds'', PDict [(''all'', PInt 75)]),
            (''visibility'', PInt 10000)]"




text \<open>What a caller sees of an answer of the listing route: its total, and the size of its page.\<close>

definition response_total :: "http_error + response \<Rightarrow> nat option" where
  "response_total r = (case r of Inl e \<Rightarrow> None | Inr resp \<Rightarrow> Some (resp_total resp))"

definition response_size :: "http_error + response \<Rightarrow> nat option" where
  "response_size r = (case r of Inl e \<Rightarrow> None | Inr resp \<Rightarrow> Some (length (resp_suggestions resp)))"

text \<open>
  A complete trip as the model is asked to describe it, without \<open>duration_days\<close>; an
  environment for the generator and the route in which the model's reply and its decoding
  are fixed, the store sorts numeric ratings in descending order, and the validation accepts
  the record it is given; an empty collection, a collection holding one moderate trip, and a
  request with every parameter at its default.
\<close>

definition example_trip_fields :: "string \<Rightarrow> string \<Rightarrow> rat \<Rightarrow> (string \<times> pyval) list" where
  "example_trip_fields place level stars =
           [(''destination'', PStr place),
            (''country'', PStr ''Portugal''),
            (''continent'', PStr ''Europe''),
            (''title'', PStr (''Discover '' @ place)),
            (''description'', PStr ''Old streets, river views and good food.''),
            (''duration'', PStr ''5-7 days''),
            (''highlights'', PList [PStr ''Old town'', PStr ''Riverside'']),
            (''best_time_to_visit'', PStr ''May to September''),
            (''best_months'', PList [PStr ''May'', PStr ''Jun'', PStr ''Sep'']),
            (''category'', PList [PStr ''culture'', PStr ''food'']),
            (''budget'', PStr level),
            (''estimated_cost'', PStr ''$900-$1400''),
            (''rating'', PFloat stars),
            (''popular_activities'', PStr ''walking tours, wine tasting''),
            (''travel_tips'', PList [PStr ''Book trams early''])]"

definition example_trip :: "string \<Rightarrow> string \<Rightarrow> rat \<Rightarrow> pyval" where
  "example_trip place level stars = PDict (example_trip_fields place level stars)"

definition decimal :: "string \<Rightarrow> int option" where
  "decimal s =
     (if s \<noteq> [] \<and> list_all (\<lambda>c. 48 \<le> (of_char c :: nat) \<and> (of_char c :: nat) \<le> 57) s
      then Some (foldl (\<lambda>n c. 10 * n + (int (of_char c) - 48)) 0 s)
      else None)"

definition by_rating :: "doc list \<Rightarrow> doc list" where
  "by_rating docs =
     sort_key (\<lambda>d. case Option.bind (d ''rating'') stored_number of None \<Rightarrow> 0 | Some q \<Rightarrow> - q) docs"

definition example_aenv :: "string + string \<Rightarrow> string + pyval \<Rightarrow> aenv" where
  "example_aenv reply decoded =
     \<lparr>llm_reply = (\<lambda>n p. reply),
      json_loads = (\<lambda>s. decoded),
      parse_int = decimal,
      sort_rating = by_rating,
      new_object_id = (\<lambda>n. replicate (24 - length (str_nat n)) CHR ''0'' @ str_nat n),
      suggested_trip = Some,
      py_str = (\<lambda>v. case v of PObjectId h \<Rightarrow> h | PStr s \<Rightarrow> s | _ \<Rightarrow> []),
      clock = (\<lambda>n. 1700000000000000 + int n)\<rparr>"

definition empty_world :: world where
  "empty_world = \<lparr>store = [], ids_issued = 0, ticks = 0, prompts = []\<rparr>"

definition plain_request :: request where
  "plain_request =
     \<lparr>category = None, budget = None, duration_min = None, duration_max = None,
      continent = None, featured = False, limit = 10, skip = 0, suggestion_id = None\<rparr>"

definition twelve_trips :: pyval where
  "twelve_trips = PList (map (\<lambda>i. example_trip (''Place '' @ str_nat i) ''moderate'' (24 / 5)) [1..<13])"




definition twelve_records :: "doc list" where
  "twelve_records =
     map (\<lambda>i. map_of (example_trip_fields (''Place '' @ str_nat i) ''moderate'' (24 / 5))) [1..<13]"


section \<open>Properties of the normalizer\<close>

lemma coerce_field_other: "k \<noteq> f \<Longrightarrow> coerce_field f s k = s k"
  by (simp add: coerce_field_def split: option.splits pyval.splits)

lemma ensure_field_other: "k \<noteq> f \<Longrightarrow> ensure_field f s k = s k"
  by (simp add: ensure_field_def)

lemma fold_coerce_field_notin: "k \<notin> set fs \<Longrightarrow> fold coerce_field fs s k = s k"
  by (induction fs arbitrary: s) (auto simp: coerce_field_other)

lemma fold_ensure_field_notin: "k \<notin> set fs \<Longrightarrow> fold ensure_field fs s k = s k"
  by (induction fs arbitrary: s) (auto simp: ensure_field_other)

lemma fold_coerce_field_in:
  "distinct fs \<Longrightarrow> k \<in> set fs \<Longrightarrow> fold coerce_field fs s k = coerce_field k s k"
proof (induction fs arbitrary: s)
  case Nil
  then show ?case by simp
next
  case (Cons f fs)
  show ?case
  proof (cases "k = f")
    case True
    with Cons.prems have "k \<notin> set fs" by simp
    then show ?thesis using True by (simp add: fold_coerce_field_notin)
  next
    case False
    with Cons.prems have k: "k \<in> set fs" and d: "distinct fs" by auto
    have "fold coerce_field fs (coerce_field f s) k = coerce_field k (coerce_field f s) k"
      using Cons.IH [OF d k] .
    also have "\<dots> = coerce_field k s k"
      using False by (simp add: coerce_field_def coerce_field_other split: option.splits pyval.splits)
    finally show ?thesis by simp
  qed
qed

lemma fold_ensure_field_in:
  "distinct fs \<Longrightarrow> k \<in> set fs \<Longrightarrow> fold ensure_field fs s k = ensure_field k s k"
proof (induction fs arbitrary: s)
  case Nil
  then show ?case by simp
next
  case (Cons f fs)
  show ?case
  proof (cases "k = f")
    case True
    with Cons.prems have "k \<notin> set fs" by simp
    then show ?thesis using True by (simp add: fold_ensure_field_notin)
  next
    case False
    with Cons.prems have k: "k \<in> set fs" and d: "distinct fs" by auto
    have "fold ensure_field fs (ensure_field f s) k = ensure_field k (ensure_field f s) k"
      using Cons.IH [OF d k] .
    also have "\<dots> = ensure_field k s k"
      using False by (simp add: ensure_field_def)
    finally show ?thesis by simp
  qed
qed

lemma distinct_array_fields: "distinct array_fields"
  by (simp add: array_fields_def)

lemma normalize_other: "k \<notin> set array_fields \<Longrightarrow> normalize_suggestion_data r k = r k"
  by (simp add: normalize_suggestion_data_def fold_coerce_field_notin fold_ensure_field_notin)

lemma normalize_field:
  assumes "k \<in> set array_fields"
  shows "normalize_suggestion_data r k =
     (case coerce_field k r k of None \<Rightarrow> Some (PList []) | Some v \<Rightarrow> Some v)"
proof -
  have "normalize_suggestion_data r k = ensure_field k (fold coerce_field array_fields r) k"
    using assms by (simp add: normalize_suggestion_data_def fold_ensure_field_in distinct_array_fields)
  also have "\<dots> = (case fold coerce_field array_fields r k of None \<Rightarrow> Some (PList []) | Some v \<Rightarrow> Some v)"
    by (simp add: ensure_field_def split: option.splits)
  also have "fold coerce_field array_fields r k = coerce_field k r k"
    using assms by (simp add: fold_coerce_field_in distinct_array_fields)
  finally show ?thesis .
qed

lemma normalize_is_list:
  assumes "k \<in> set array_fields"
  shows "\<exists>xs. normalize_suggestion_data r k = Some (PList xs)"
  using assms by (auto simp add: normalize_field coerce_field_def split: option.splits pyval.splits)

lemma coerce_field_fixed:
  assumes "\<forall>k \<in> set fs. \<exists>xs. s k = Some (PList xs)"
  shows "fold coerce_field fs s = s"
  using assms
proof (induction fs)
  case Nil then show ?case by simp
next
  case (Cons f fs)
  then obtain xs where "s f = Some (PList xs)" by auto
  then have "coerce_field f s = s" by (simp add: coerce_field_def)
  with Cons show ?case by simp
qed

lemma ensure_field_fixed:
  assumes "\<forall>k \<in> set fs. \<exists>xs. s k = Some (PList xs)"
  shows "fold ensure_field fs s = s"
  using assms
proof (induction fs)
  case Nil then show ?case by simp
next
  case (Cons f fs)
  then obtain xs where "s f = Some (PList xs)" by auto
  then have "ensure_field f s = s" by (simp add: ensure_field_def)
  with Cons show ?case by simp
qed

lemma split_sep_nonempty: "split_sep sep s \<noteq> []"
  by (induction s) (auto split: list.splits)

lemma split_sep_length: "length (split_sep sep s) = Suc (count_list s sep)"
  by (induction s) (auto split: list.splits simp: split_sep_nonempty)

lemma split_sep_pieces: "p \<in> set (split_sep sep s) \<Longrightarrow> sep \<notin> set p"
  by (induction s arbitrary: p) (auto split: list.splits if_splits)

text \<open>The worked examples of the specification.\<close>

lemma normalize_examples:
  "normalize_suggestion_data (Map.empty(''category'' \<mapsto> PStr ''beach'')) ''category''
     = Some (PList [PStr ''beach''])"
  "normalize_suggestion_data (Map.empty(''category'' \<mapsto> PStr '''')) ''category'' = Some (PList [])"
  "normalize_suggestion_data (Map.empty(''category'' \<mapsto> PInt 42)) ''category'' = Some (PList [])"
  "normalize_suggestion_data (Map.empty(''category'' \<mapsto> PInt 42)) ''travel_tips'' = Some (PList [])"
  by (simp_all add: normalize_suggestion_data_def array_fields_def coerce_field_def
        ensure_field_def strip_def py_isspace_def)

text \<open>
  C1 (as amended).  For each of the five array fields, the normalized record holds a list
  (never null, never a bare scalar): the empty list when the field was absent; the input
  list itself, elements untouched, when it was a list; the comma-split with every piece
  stripped and the empty pieces dropped when it was a string with a comma; the stripped
  string as a single element (or the empty list when nothing is left) when it was a string
  without a comma; the empty list for every other type.  The elements are all text provided
  an input list held nothing but text.
\<close>

theorem normalize_array_fields:
  assumes "field \<in> set array_fields"
  shows "(\<exists>xs. normalize_suggestion_data r field = Some (PList xs))
    \<and> (r field = None \<longrightarrow> normalize_suggestion_data r field = Some (PList []))
    \<and> (\<forall>xs. r field = Some (PList xs) \<longrightarrow>
          normalize_suggestion_data r field = Some (PList xs))
    \<and> (\<forall>s. r field = Some (PStr s) \<longrightarrow> CHR '','' \<in> set s \<longrightarrow>
          normalize_suggestion_data r field =
            Some (PList (map PStr (filter (\<lambda>p. p \<noteq> []) (map strip (split_sep CHR '','' s))))))
    \<and> (\<forall>s. r field = Some (PStr s) \<longrightarrow> CHR '','' \<notin> set s \<longrightarrow>
          normalize_suggestion_data r field =
            Some (if strip s = [] then PList [] else PList [PStr (strip s)]))
    \<and> (\<forall>v. r field = Some v \<longrightarrow> \<not> is_str v \<longrightarrow> \<not> is_list v \<longrightarrow>
          normalize_suggestion_data r field = Some (PList []))
    \<and> ((\<forall>xs. r field = Some (PList xs) \<longrightarrow> list_all is_str xs) \<longrightarrow>
          (\<exists>ss. normalize_suggestion_data r field = Some (PList (map PStr ss))))"
proof (intro conjI allI impI)
  show "\<exists>xs. normalize_suggestion_data r field = Some (PList xs)"
    using assms by (rule normalize_is_list)
next
  assume "r field = None"
  then show "normalize_suggestion_data r field = Some (PList [])"
    using assms by (simp add: normalize_field coerce_field_def)
next
  fix xs assume "r field = Some (PList xs)"
  then show "normalize_suggestion_data r field = Some (PList xs)"
    using assms by (simp add: normalize_field coerce_field_def)
next
  fix s assume "r field = Some (PStr s)" "CHR '','' \<in> set s"
  then show "normalize_suggestion_data r field =
      Some (PList (map PStr (filter (\<lambda>p. p \<noteq> []) (map strip (split_sep CHR '','' s)))))"
    using assms by (simp add: normalize_field coerce_field_def filter_map comp_def)
next
  fix s assume "r field = Some (PStr s)" "CHR '','' \<notin> set s"
  then show "normalize_suggestion_data r field =
      Some (if strip s = [] then PList [] else PList [PStr (strip s)])"
    using assms by (simp add: normalize_field coerce_field_def)
next
  fix v assume "r field = Some v" "\<not> is_str v" "\<not> is_list v"
  then show "normalize_suggestion_data r field = Some (PList [])"
    using assms by (cases v) (simp_all add: normalize_field coerce_field_def)
next
  assume texts: "\<forall>xs. r field = Some (PList xs) \<longrightarrow> list_all is_str xs"
  have strs: "list_all is_str xs \<Longrightarrow> \<exists>ss. xs = map PStr ss" for xs
  proof (induction xs)
    case Nil
    then show ?case by simp
  next
    case (Cons x xs)
    then obtain ss where "xs = map PStr ss" by auto
    moreover from Cons.prems obtain s where "x = PStr s" by (cases x) auto
    ultimately have "x # xs = map PStr (s # ss)" by simp
    then show ?case ..
  qed
  show "\<exists>ss. normalize_suggestion_data r field = Some (PList (map PStr ss))"
  proof (cases "r field")
    case None
    then have "normalize_suggestion_data r field = Some (PList (map PStr []))"
      using assms by (simp add: normalize_field coerce_field_def)
    then show ?thesis ..
  next
    case (Some v)
    show ?thesis
    proof (cases v)
      case (PStr s)
      have "normalize_suggestion_data r field =
          Some (PList (map PStr (if CHR '','' \<in> set s
             then filter (\<lambda>p. p \<noteq> []) (map strip (split_sep CHR '','' s))
             else if strip s = [] then [] else [strip s])))"
        using assms Some PStr by (simp add: normalize_field coerce_field_def filter_map comp_def)
      then show ?thesis ..
    next
      case (PList xs)
      with Some texts have "list_all is_str xs" by simp
      then obtain ss where "xs = map PStr ss" using strs by blast
      then have "normalize_suggestion_data r field = Some (PList (map PStr ss))"
        using assms Some PList by (simp add: normalize_field coerce_field_def)
      then show ?thesis ..
    qed (use assms Some in \<open>auto simp add: normalize_field coerce_field_def intro: exI [of _ "[]"]\<close>)
  qed
qed

theorem normalize_array_fields_witness:
  "''category'' \<in> set array_fields
   \<and> normalize_suggestion_data (Map.empty(''category'' \<mapsto> PStr ''beach, culture'')) ''category''
       = Some (PList [PStr ''beach'', PStr ''culture''])"
proof -
  have f: "''category'' \<in> set array_fields"
    by (simp add: array_fields_def)
  have "normalize_suggestion_data (Map.empty(''category'' \<mapsto> PStr ''beach, culture'')) ''category''
      = Some (PList (map PStr (filter (\<lambda>p. p \<noteq> []) (map strip (split_sep CHR '','' ''beach, culture'')))))"
    using normalize_array_fields [OF f, of "Map.empty(''category'' \<mapsto> PStr ''beach, culture'')"]
    by simp
  then show ?thesis
    using f by (simp add: strip_def py_isspace_def)
qed

text \<open>
  C1 as stated fails: a list is passed through without any coercion of its elements, so
  a list holding a number leaves the normalizer as it came, and is not a sequence of text.
\<close>

theorem normalize_text_counterexample:
  "normalize_suggestion_data (Map.empty(''category'' \<mapsto> PList [PInt 42])) ''category''
     = Some (PList [PInt 42])
   \<and> \<not> is_text_list (PList [PInt 42])"
  by (simp add: normalize_suggestion_data_def array_fields_def coerce_field_def ensure_field_def)

text \<open>
  C2.  The normalizer is idempotent: normalizing a normalized record changes nothing.
\<close>

theorem normalize_idempotent:
  "normalize_suggestion_data (normalize_suggestion_data r) = normalize_suggestion_data r"
proof -
  have "\<forall>k \<in> set array_fields. \<exists>xs. normalize_suggestion_data r k = Some (PList xs)"
    using normalize_is_list by blast
  then show ?thesis
    unfolding normalize_suggestion_data_def [of "normalize_suggestion_data r"]
    by (simp add: coerce_field_fixed ensure_field_fixed)
qed

section \<open>Properties of the forecast aggregation\<close>

lemma those_map_Some: "those (map Some ys) = Some ys"
  by (induction ys) auto































section \<open>Properties of the weather service\<close>

lemma handle_fetch_returns: "\<exists>r. fst (handle_fetch x) = Inr r"
proof (cases x)
  case (Pair outcome svc)
  then show ?thesis
  proof (cases outcome)
    case (Inl e)
    with Pair show ?thesis by (cases e) simp_all
  next
    case (Inr w)
    with Pair show ?thesis by simp
  qed
qed

lemma handle_fetch_error: "fst (handle_fetch (Inl e, svc)) = Inr None"
  by (cases e) simp_all

lemma handle_fetch_snd: "snd (handle_fetch x) = snd x"
proof (cases x)
  case (Pair outcome svc)
  then show ?thesis
  proof (cases outcome)
    case (Inl e)
    with Pair show ?thesis by (cases e) simp_all
  next
    case (Inr w)
    with Pair show ?thesis by simp
  qed
qed

lemma cache_lookup_frame:
  "requests (snd (cache_lookup env k svc)) = requests svc"
  "cache (snd (cache_lookup env k svc)) = cache svc"
  "api_key (snd (cache_lookup env k svc)) = api_key svc"
  by (simp_all add: cache_lookup_def is_cache_valid_def read_clock_def split: option.splits prod.splits)

lemma fetch_current_requests:
  "requests (snd (fetch_current env city k svc)) = requests svc @ [CurrentRequest city]"
  by (simp add: fetch_current_def read_clock_def Let_def split: sum.splits option.splits prod.splits)

lemma fetch_forecast_requests:
  "requests (snd (fetch_forecast env city days k svc)) = requests svc @ [ForecastRequest city (int days * 8)]"
  by (simp add: fetch_forecast_def read_clock_def Let_def split: sum.splits option.splits prod.splits)

lemma fetch_current_failure:
  "http_get env (length (requests svc)) (CurrentRequest city) = Inl e \<Longrightarrow>
   fetch_current env city k svc = (Inl e, svc\<lparr>requests := requests svc @ [CurrentRequest city]\<rparr>)"
  by (simp add: fetch_current_def)

lemma fetch_current_malformed:
  "http_get env (length (requests svc)) (CurrentRequest city) = Inr data \<Longrightarrow>
   current_fields data = None \<Longrightarrow>
   fetch_current env city k svc =
     (Inl (OtherException ''format''), svc\<lparr>requests := requests svc @ [CurrentRequest city]\<rparr>)"
  by (simp add: fetch_current_def)

lemma fetch_forecast_failure:
  "http_get env (length (requests svc)) (ForecastRequest city (int days * 8)) = Inl e \<Longrightarrow>
   fetch_forecast env city days k svc =
     (Inl e, svc\<lparr>requests := requests svc @ [ForecastRequest city (int days * 8)]\<rparr>)"
  by (simp add: fetch_forecast_def)

lemma fetch_forecast_malformed:
  "http_get env (length (requests svc)) (ForecastRequest city (int days * 8)) = Inr data \<Longrightarrow>
   forecast_fields env days data = None \<Longrightarrow>
   fetch_forecast env city days k svc =
     (Inl (OtherException ''format''), svc\<lparr>requests := requests svc @ [ForecastRequest city (int days * 8)]\<rparr>)"
  by (simp add: fetch_forecast_def)

lemma get_current_weather_cases:
  "get_current_weather env city svc =
     (if api_key svc = [] then (Inr None, svc)
      else case fst (cache_lookup env (get_cache_key city ''current'') svc) of
             Some cached \<Rightarrow> (Inr (Some cached), snd (cache_lookup env (get_cache_key city ''current'') svc))
           | None \<Rightarrow> handle_fetch (fetch_current env city (get_cache_key city ''current'')
                        (snd (cache_lookup env (get_cache_key city ''current'') svc))))"
  by (simp add: get_current_weather_def Let_def split: prod.splits option.splits)

lemma get_forecast_cases:
  "get_forecast env city days svc =
     (if api_key svc = [] then (Inr None, svc)
      else case fst (cache_lookup env (get_cache_key city (''forecast_'' @ str_nat (nat (max 1 (min days 5))))) svc) of
             Some cached \<Rightarrow> (Inr (Some cached),
                 snd (cache_lookup env (get_cache_key city (''forecast_'' @ str_nat (nat (max 1 (min days 5))))) svc))
           | None \<Rightarrow> handle_fetch (fetch_forecast env city (nat (max 1 (min days 5)))
                        (get_cache_key city (''forecast_'' @ str_nat (nat (max 1 (min days 5)))))
                        (snd (cache_lookup env (get_cache_key city (''forecast_'' @ str_nat (nat (max 1 (min days 5))))) svc))))"
  by (simp add: get_forecast_def Let_def del: str_nat.simps split: prod.splits option.splits)

lemma cache_lookup_hit:
  "cache svc k = Some (v, ts) \<Longrightarrow> utcnow env (clock_reads svc) - ts < cache_duration \<Longrightarrow>
   cache_lookup env k svc = (Some v, svc\<lparr>clock_reads := Suc (clock_reads svc)\<rparr>)"
  by (simp add: cache_lookup_def is_cache_valid_def read_clock_def)

lemma cache_lookup_expired:
  "cache svc k = Some (v, ts) \<Longrightarrow> cache_duration \<le> utcnow env (clock_reads svc) - ts \<Longrightarrow>
   cache_lookup env k svc = (None, svc\<lparr>clock_reads := Suc (clock_reads svc)\<rparr>)"
  by (simp add: cache_lookup_def is_cache_valid_def read_clock_def)

lemma cache_lookup_absent:
  "cache svc k = None \<Longrightarrow> cache_lookup env k svc = (None, svc)"
  by (simp add: cache_lookup_def)

lemma fetch_current_stores:
  assumes "fst (fetch_current env city k svc) = Inr w"
  shows "cache (snd (fetch_current env city k svc)) k
           = Some (w, utcnow env (clock_reads (snd (fetch_current env city k svc)) - 1))"
  using assms
  by (auto simp add: fetch_current_def read_clock_def Let_def split: sum.splits option.splits)

lemma fetch_current_success:
  assumes "http_get env (length (requests svc)) (CurrentRequest city) = Inr data"
    and "current_fields data = Some entries"
  shows "fst (fetch_current env city k svc)
           = Inr (PDict (entries @ [(''timestamp'', PDateTime (utcnow env (clock_reads svc)))]))"
  using assms by (simp add: fetch_current_def read_clock_def Let_def)

lemma handle_fetch_value: "fst (handle_fetch x) = Inr (Some w) \<longleftrightarrow> fst x = Inr w"
proof (cases x)
  case (Pair outcome svc)
  then show ?thesis
  proof (cases outcome)
    case (Inl e)
    with Pair show ?thesis by (cases e) simp_all
  next
    case (Inr w')
    with Pair show ?thesis by simp
  qed
qed

text \<open>
  C10.  Without a configured key either operation returns \<open>None\<close> at once: the service
  is left as it was, so the cache was neither read nor written, the clock was not read and
  no request was sent, whatever the cache holds.
\<close>

theorem weather_unconfigured:
  assumes "api_key svc = []"
  shows "get_current_weather env city svc = (Inr None, svc)
       \<and> get_forecast env city days svc = (Inr None, svc)"
  using assms by (simp add: get_current_weather_def get_forecast_def)

theorem weather_unconfigured_witness:
  "api_key (example_service []) = []
   \<and> cache (example_service []) (get_cache_key ''Paris'' ''current'')
       = Some (paris_snapshot, 1700000000000000)
   \<and> get_current_weather (example_wenv (\<lambda>n. 1700000060000000) (Inr paris_body) remdups)
        ''Paris'' (example_service []) = (Inr None, example_service [])
   \<and> get_forecast (example_wenv (\<lambda>n. 1700000060000000) (Inr paris_body) remdups)
        ''Paris'' 3 (example_service []) = (Inr None, example_service [])"
proof -
  have k: "api_key (example_service []) = []"
    by (simp add: example_service_def)
  have c: "cache (example_service []) (get_cache_key ''Paris'' ''current'')
       = Some (paris_snapshot, 1700000000000000)"
    by (simp add: example_service_def get_cache_key_def lower_def strip_def py_isspace_def
        py_lower_char_def char_of_def bit_Suc_0_iff)
  show ?thesis
    using k c
      weather_unconfigured [OF k, of "example_wenv (\<lambda>n. 1700000060000000) (Inr paris_body) remdups"
        "''Paris''" 3]
    by simp
qed

text \<open>
  C8.  Neither operation lets an exception through: the result is always a returned
  value.  When the request that was sent failed (for any exception of the client), or
  its body could not be formatted, the returned value is \<open>None\<close>.
\<close>

theorem weather_never_raises:
  "(\<exists>r. fst (get_current_weather env city svc) = Inr r)
   \<and> (\<exists>r. fst (get_forecast env city days svc) = Inr r)
   \<and> (requests (snd (get_current_weather env city svc)) \<noteq> requests svc \<longrightarrow>
        (\<forall>e. http_get env (length (requests svc)) (CurrentRequest city) = Inl e \<longrightarrow>
           fst (get_current_weather env city svc) = Inr None)
      \<and> (\<forall>data. http_get env (length (requests svc)) (CurrentRequest city) = Inr data \<longrightarrow>
           current_fields data = None \<longrightarrow>
           fst (get_current_weather env city svc) = Inr None))
   \<and> (requests (snd (get_forecast env city days svc)) \<noteq> requests svc \<longrightarrow>
        (\<forall>e. http_get env (length (requests svc))
                (ForecastRequest city (int (nat (max 1 (min days 5))) * 8)) = Inl e \<longrightarrow>
           fst (get_forecast env city days svc) = Inr None)
      \<and> (\<forall>data. http_get env (length (requests svc))
                (ForecastRequest city (int (nat (max 1 (min days 5))) * 8)) = Inr data \<longrightarrow>
           forecast_fields env (nat (max 1 (min days 5))) data = None \<longrightarrow>
           fst (get_forecast env city days svc) = Inr None))"
proof (intro conjI impI allI)
  show "\<exists>r. fst (get_current_weather env city svc) = Inr r"
    by (simp add: get_current_weather_cases handle_fetch_returns split: option.splits)
next
  show "\<exists>r. fst (get_forecast env city days svc) = Inr r"
    by (simp add: get_forecast_cases handle_fetch_returns del: str_nat.simps split: option.splits)
next
  fix e
  assume sent: "requests (snd (get_current_weather env city svc)) \<noteq> requests svc"
    and fail: "http_get env (length (requests svc)) (CurrentRequest city) = Inl e"
  let ?k = "get_cache_key city ''current''"
  let ?svc1 = "snd (cache_lookup env ?k svc)"
  have "http_get env (length (requests ?svc1)) (CurrentRequest city) = Inl e"
    using fail by (simp add: cache_lookup_frame)
  then have "fetch_current env city ?k ?svc1
      = (Inl e, ?svc1\<lparr>requests := requests ?svc1 @ [CurrentRequest city]\<rparr>)"
    by (rule fetch_current_failure)
  then show "fst (get_current_weather env city svc) = Inr None"
    using sent
    by (simp add: get_current_weather_cases handle_fetch_error cache_lookup_frame
        split: option.splits if_splits)
next
  fix data
  assume sent: "requests (snd (get_current_weather env city svc)) \<noteq> requests svc"
    and body: "http_get env (length (requests svc)) (CurrentRequest city) = Inr data"
    and bad: "current_fields data = None"
  let ?k = "get_cache_key city ''current''"
  let ?svc1 = "snd (cache_lookup env ?k svc)"
  have "http_get env (length (requests ?svc1)) (CurrentRequest city) = Inr data"
    using body by (simp add: cache_lookup_frame)
  then have "fetch_current env city ?k ?svc1
      = (Inl (OtherException ''format''), ?svc1\<lparr>requests := requests ?svc1 @ [CurrentRequest city]\<rparr>)"
    using bad by (rule fetch_current_malformed)
  then show "fst (get_current_weather env city svc) = Inr None"
    using sent
    by (simp add: get_current_weather_cases handle_fetch_error cache_lookup_frame
        split: option.splits if_splits)
next
  fix e
  let ?d = "nat (max 1 (min days 5))"
  let ?k = "get_cache_key city (''forecast_'' @ str_nat ?d)"
  let ?svc1 = "snd (cache_lookup env ?k svc)"
  assume sent: "requests (snd (get_forecast env city days svc)) \<noteq> requests svc"
    and fail: "http_get env (length (requests svc)) (ForecastRequest city (int ?d * 8)) = Inl e"
  have "http_get env (length (requests ?svc1)) (ForecastRequest city (int ?d * 8)) = Inl e"
    using fail by (simp add: cache_lookup_frame del: str_nat.simps)
  then have "fetch_forecast env city ?d ?k ?svc1
      = (Inl e, ?svc1\<lparr>requests := requests ?svc1 @ [ForecastRequest city (int ?d * 8)]\<rparr>)"
    by (rule fetch_forecast_failure)
  then show "fst (get_forecast env city days svc) = Inr None"
    using sent
    by (simp add: get_forecast_cases handle_fetch_error cache_lookup_frame del: str_nat.simps
        split: option.splits if_splits)
next
  fix data
  let ?d = "nat (max 1 (min days 5))"
  let ?k = "get_cache_key city (''forecast_'' @ str_nat ?d)"
  let ?svc1 = "snd (cache_lookup env ?k svc)"
  assume sent: "requests (snd (get_forecast env city days svc)) \<noteq> requests svc"
    and body: "http_get env (length (requests svc)) (ForecastRequest city (int ?d * 8)) = Inr data"
    and bad: "forecast_fields env ?d data = None"
  have "http_get env (length (requests ?svc1)) (ForecastRequest city (int ?d * 8)) = Inr data"
    using body by (simp add: cache_lookup_frame del: str_nat.simps)
  then have "fetch_forecast env city ?d ?k ?svc1
      = (Inl (OtherException ''format''),
         ?svc1\<lparr>requests := requests ?svc1 @ [ForecastRequest city (int ?d * 8)]\<rparr>)"
    using bad by (rule fetch_forecast_malformed)
  then show "fst (get_forecast env city days svc) = Inr None"
    using sent
    by (simp add: get_forecast_cases handle_fetch_error cache_lookup_frame del: str_nat.simps
        split: option.splits if_splits)
qed

theorem weather_never_raises_witness:
  "requests (snd (get_current_weather
        (example_wenv (\<lambda>n. 1700003660000000) (Inl (HTTPStatusError 404)) remdups)
        ''Paris'' (example_service ''key''))) = [CurrentRequest ''Paris'']
   \<and> fst (get_current_weather
        (example_wenv (\<lambda>n. 1700003660000000) (Inl (HTTPStatusError 404)) remdups)
        ''Paris'' (example_service ''key'')) = Inr None
   \<and> requests (snd (get_forecast
        (example_wenv (\<lambda>n. 1700003660000000) (Inl TimeoutException) remdups)
        ''Paris'' 9 (example_service ''key''))) = [ForecastRequest ''Paris'' 40]
   \<and> fst (get_forecast
        (example_wenv (\<lambda>n. 1700003660000000) (Inl TimeoutException) remdups)
        ''Paris'' 9 (example_service ''key'')) = Inr None"
proof -
  let ?e1 = "example_wenv (\<lambda>n. 1700003660000000) (Inl (HTTPStatusError 404)) remdups"
  let ?e2 = "example_wenv (\<lambda>n. 1700003660000000) (Inl TimeoutException) remdups"
  let ?svc = "example_service ''key''"
  have sent1: "requests (snd (get_current_weather ?e1 ''Paris'' ?svc)) = [CurrentRequest ''Paris'']"
    by code_simp
  have sent2: "requests (snd (get_forecast ?e2 ''Paris'' 9 ?svc)) = [ForecastRequest ''Paris'' 40]"
    by code_simp
  have none: "requests ?svc = []"
    by (simp add: example_service_def)
  have fail1: "http_get ?e1 (length (requests ?svc)) (CurrentRequest ''Paris'') = Inl (HTTPStatusError 404)"
    by (simp add: example_wenv_def)
  have fail2: "http_get ?e2 (length (requests ?svc))
      (ForecastRequest ''Paris'' (int (nat (max 1 (min 9 5))) * 8)) = Inl TimeoutException"
    by (simp add: example_wenv_def)
  have "fst (get_current_weather ?e1 ''Paris'' ?svc) = Inr None"
    using weather_never_raises [of ?e1 "''Paris''" ?svc 9] sent1 none fail1 by simp
  moreover have "fst (get_forecast ?e2 ''Paris'' 9 ?svc) = Inr None"
    using weather_never_raises [of ?e2 "''Paris''" ?svc 9] sent2 none fail2 by simp
  ultimately show ?thesis using sent1 sent2 by simp
qed

text \<open>
  C9 (as amended).  With a configured key: when the cache holds an entry for the key of
  the city whose age is below one hour, the cached value is returned, no request is sent
  and the cache is unchanged; when there is no entry or its age is one hour or more, one
  request is sent, and when the operation returns a snapshot the entry is that snapshot
  with the time read last; a well-formed upstream body makes it return one.
\<close>

theorem current_weather_cache:
  assumes key: "api_key svc \<noteq> []"
  shows "(\<forall>v ts. cache svc (get_cache_key city ''current'') = Some (v, ts) \<longrightarrow>
            utcnow env (clock_reads svc) - ts < cache_duration \<longrightarrow>
              fst (get_current_weather env city svc) = Inr (Some v)
            \<and> requests (snd (get_current_weather env city svc)) = requests svc
            \<and> cache (snd (get_current_weather env city svc)) = cache svc)
       \<and> ((cache svc (get_cache_key city ''current'') = None
            \<or> (\<exists>v ts. cache svc (get_cache_key city ''current'') = Some (v, ts)
                  \<and> cache_duration \<le> utcnow env (clock_reads svc) - ts)) \<longrightarrow>
              requests (snd (get_current_weather env city svc)) = requests svc @ [CurrentRequest city]
            \<and> (\<forall>w. fst (get_current_weather env city svc) = Inr (Some w) \<longrightarrow>
                  cache (snd (get_current_weather env city svc)) (get_cache_key city ''current'')
                    = Some (w, utcnow env (clock_reads (snd (get_current_weather env city svc)) - 1)))
            \<and> (\<forall>data entries.
                  http_get env (length (requests svc)) (CurrentRequest city) = Inr data \<longrightarrow>
                  current_fields data = Some entries \<longrightarrow>
                  (\<exists>stamp. fst (get_current_weather env city svc)
                     = Inr (Some (PDict (entries @ [(''timestamp'', PDateTime stamp)]))))))"
proof (intro conjI allI impI)
  fix v ts
  assume hit: "cache svc (get_cache_key city ''current'') = Some (v, ts)"
    and fresh: "utcnow env (clock_reads svc) - ts < cache_duration"
  have res: "get_current_weather env city svc = (Inr (Some v), svc\<lparr>clock_reads := Suc (clock_reads svc)\<rparr>)"
    using key by (simp add: get_current_weather_cases cache_lookup_hit [OF hit fresh])
  show "fst (get_current_weather env city svc) = Inr (Some v)"
    and "requests (snd (get_current_weather env city svc)) = requests svc"
    and "cache (snd (get_current_weather env city svc)) = cache svc"
    by (simp_all add: res)
next
  let ?k = "get_cache_key city ''current''"
  assume stale: "cache svc ?k = None
      \<or> (\<exists>v ts. cache svc ?k = Some (v, ts) \<and> cache_duration \<le> utcnow env (clock_reads svc) - ts)"
  then obtain svc1 where miss: "cache_lookup env ?k svc = (None, svc1)"
    using cache_lookup_absent cache_lookup_expired by blast
  have svc1: "requests svc1 = requests svc"
    using cache_lookup_frame(1) [of env ?k svc] miss by simp
  have res: "get_current_weather env city svc = handle_fetch (fetch_current env city ?k svc1)"
    using key miss by (simp add: get_current_weather_cases)
  show "requests (snd (get_current_weather env city svc)) = requests svc @ [CurrentRequest city]"
    by (simp add: res handle_fetch_snd fetch_current_requests svc1)
  {
    fix w
    assume "fst (get_current_weather env city svc) = Inr (Some w)"
    then have "fst (fetch_current env city ?k svc1) = Inr w"
      by (simp add: res handle_fetch_value)
    then show "cache (snd (get_current_weather env city svc)) ?k
        = Some (w, utcnow env (clock_reads (snd (get_current_weather env city svc)) - 1))"
      by (simp add: res handle_fetch_snd fetch_current_stores)
  }
  {
    fix data entries
    assume "http_get env (length (requests svc)) (CurrentRequest city) = Inr data"
      and fields: "current_fields data = Some entries"
    then have "http_get env (length (requests svc1)) (CurrentRequest city) = Inr data"
      by (simp add: svc1)
    from fetch_current_success [OF this fields, of ?k]
    have "fst (get_current_weather env city svc)
        = Inr (Some (PDict (entries @ [(''timestamp'', PDateTime (utcnow env (clock_reads svc1)))])))"
      by (simp add: res handle_fetch_value)
    then show "\<exists>stamp. fst (get_current_weather env city svc)
        = Inr (Some (PDict (entries @ [(''timestamp'', PDateTime stamp)])))" ..
  }
qed

text \<open>
  An entry fetched at time \<open>T\<close> is served from the cache at \<open>T\<close> + 59 min, and a request
  is sent at \<open>T\<close> + 61 min.
\<close>

theorem current_weather_cache_witness:
  "fst (get_current_weather (example_wenv (\<lambda>n. 1700000000000000 + 3540000000) (Inr paris_body) remdups)
        ''Paris'' (example_service ''key'')) = Inr (Some paris_snapshot)
   \<and> requests (snd (get_current_weather
        (example_wenv (\<lambda>n. 1700000000000000 + 3540000000) (Inr paris_body) remdups)
        ''Paris'' (example_service ''key''))) = []
   \<and> requests (snd (get_current_weather
        (example_wenv (\<lambda>n. 1700000000000000 + 3660000000) (Inr paris_body) remdups)
        ''Paris'' (example_service ''key''))) = [CurrentRequest ''Paris'']"
proof -
  let ?early = "example_wenv (\<lambda>n. 1700000000000000 + 3540000000) (Inr paris_body) remdups"
  let ?late = "example_wenv (\<lambda>n. 1700000000000000 + 3660000000) (Inr paris_body) remdups"
  let ?svc = "example_service ''key''"
  have key: "api_key ?svc \<noteq> []"
    by (simp add: example_service_def)
  have entry: "cache ?svc (get_cache_key ''Paris'' ''current'') = Some (paris_snapshot, 1700000000000000)"
    by code_simp
  have none: "requests ?svc = []"
    by (simp add: example_service_def)
  have fresh: "utcnow ?early (clock_reads ?svc) - 1700000000000000 < cache_duration"
    by (simp add: example_wenv_def cache_duration_def)
  have expired: "cache_duration \<le> utcnow ?late (clock_reads ?svc) - 1700000000000000"
    by (simp add: example_wenv_def cache_duration_def)
  have "fst (get_current_weather ?early ''Paris'' ?svc) = Inr (Some paris_snapshot)
      \<and> requests (snd (get_current_weather ?early ''Paris'' ?svc)) = requests ?svc"
    using current_weather_cache [OF key, of "''Paris''" ?early] entry fresh by blast
  moreover have "requests (snd (get_current_weather ?late ''Paris'' ?svc))
      = requests ?svc @ [CurrentRequest ''Paris'']"
    using current_weather_cache [OF key, of "''Paris''" ?late] entry expired by blast
  ultimately show ?thesis using none by simp
qed

text \<open>
  C9 as stated fails without a configured key, as the service starts when no key is set:
  there is no entry for the city, the upstream would answer, and yet no request is sent
  and \<open>None\<close> is returned.
\<close>

theorem current_weather_cache_counterexample:
  "cache unconfigured_service (get_cache_key ''Paris'' ''current'') = None
   \<and> http_get (example_wenv (\<lambda>n. 1700000000000000) (Inr paris_body) remdups)
        (length (requests unconfigured_service)) (CurrentRequest ''Paris'') = Inr paris_body
   \<and> fst (get_current_weather (example_wenv (\<lambda>n. 1700000000000000) (Inr paris_body) remdups)
        ''Paris'' unconfigured_service) = Inr None
   \<and> requests (snd (get_current_weather
        (example_wenv (\<lambda>n. 1700000000000000) (Inr paris_body) remdups)
        ''Paris'' unconfigured_service)) = []"
  by (simp add: get_current_weather_def unconfigured_service_def example_wenv_def)

section \<open>Properties of the generator and the listing route\<close>

lemma generate_suggestions_world:
  "snd (generate_suggestions env c b k n w) = w\<lparr>prompts := prompts w @ [build_prompt c b k n]\<rparr>"
  by (simp add: generate_suggestions_def Let_def split: sum.splits option.splits)

lemma stamp_length: "length (fst (stamp env mark i ds w)) = length ds"
  by (induction ds arbitrary: i w) (simp_all add: Let_def case_prod_beta)

lemma stamp_world: "snd (stamp env mark i ds w) = w\<lparr>ticks := ticks w + 2 * length ds\<rparr>"
  by (induction ds arbitrary: i w) (simp_all add: Let_def case_prod_beta)

lemma stamp_nth:
  "j < length ds \<Longrightarrow>
   fst (stamp env mark i ds w) ! j =
     (ds ! j)(''created_at'' \<mapsto> PDateTime (clock env (ticks w + 2 * j)),
              ''updated_at'' \<mapsto> PDateTime (clock env (Suc (ticks w + 2 * j))),
              ''is_featured'' \<mapsto> PBool (mark (i + j)))"
proof (induction ds arbitrary: i j w)
  case Nil
  then show ?case by simp
next
  case (Cons d ds)
  show ?case
  proof (cases j)
    case 0
    then show ?thesis by (simp add: Let_def case_prod_beta fun_eq_iff)
  next
    case (Suc j')
    with Cons.prems have "j' < length ds" by simp
    from Cons.IH [OF this, of "Suc i" "w\<lparr>ticks := ticks w + 2\<rparr>"] Suc
    show ?thesis by (simp add: Let_def case_prod_beta)
  qed
qed

lemma those_length: "those xs = Some ys \<Longrightarrow> length ys = length xs"
  by (induction xs arbitrary: ys) (auto split: option.splits)

lemma present_length: "present env page = Inr result \<Longrightarrow> length result = length page"
  by (auto simp: present_def split: option.splits dest!: those_length)



lemma insert_many_store:
  "\<exists>added. store (insert_many env ds w) = store w @ added \<and> length added = length ds
     \<and> (\<forall>j < length ds. \<forall>k. k \<noteq> ''_id'' \<longrightarrow> (added ! j) k = (ds ! j) k)
     \<and> (\<forall>j < length ds. (added ! j) ''_id'' \<noteq> None)"
proof (induction ds arbitrary: w)
  case Nil
  then show ?case by simp
next
  case (Cons d ds)
  let ?d' = "if d ''_id'' = None then d(''_id'' \<mapsto> PObjectId (new_object_id env (ids_issued w))) else d"
  let ?w' = "if d ''_id'' = None
      then w\<lparr>store := store w @ [?d'], ids_issued := Suc (ids_issued w)\<rparr>
      else w\<lparr>store := store w @ [?d']\<rparr>"
  have step: "insert_many env (d # ds) w = insert_many env ds ?w'" by simp
  have st: "store ?w' = store w @ [?d']" by simp
  from Cons.IH [of ?w'] obtain added where added:
    "store (insert_many env ds ?w') = store ?w' @ added" "length added = length ds"
    "\<forall>j < length ds. \<forall>k. k \<noteq> ''_id'' \<longrightarrow> (added ! j) k = (ds ! j) k"
    "\<forall>j < length ds. (added ! j) ''_id'' \<noteq> None" by blast
  have "store (insert_many env (d # ds) w) = store w @ (?d' # added)"
    using added(1) st by (simp only: step) simp
  moreover have "length (?d' # added) = length (d # ds)" using added(2) by simp
  moreover have "\<forall>j < length (d # ds). \<forall>k. k \<noteq> ''_id'' \<longrightarrow> ((?d' # added) ! j) k = ((d # ds) ! j) k"
    using added(3) by (auto simp: nth_Cons split: nat.splits)
  moreover have "\<forall>j < length (d # ds). ((?d' # added) ! j) ''_id'' \<noteq> None"
    using added(4) by (auto simp: nth_Cons split: nat.splits)
  ultimately show ?case by blast
qed


lemma run_query_length: "length (run_query env q s n docs) \<le> n"
  by (simp add: run_query_def)

lemma has_filters_query: "has_filters req \<longleftrightarrow> build_query req \<noteq> []"
proof -
  have t: "text_clause mk v \<noteq> [] \<longleftrightarrow> truthy v" for mk v
    by (cases v) auto
  show ?thesis
    by (auto simp add: has_filters_def build_query_def t)
qed

lemma get_suggestions_listing:
  assumes "\<not> truthy (suggestion_id req)"
  shows "get_suggestions env req w =
     (case (if count_documents (build_query req) (store (seed_if_empty env w)) = 0 \<and> has_filters req
            then backfill env req
                   (run_query env (build_query req) (skip req) (effective_limit req)
                      (store (seed_if_empty env w)))
                   (count_documents (build_query req) (store (seed_if_empty env w)))
                   (seed_if_empty env w)
            else ((run_query env (build_query req) (skip req) (effective_limit req)
                     (store (seed_if_empty env w)),
                   count_documents (build_query req) (store (seed_if_empty env w))),
                  seed_if_empty env w)) of
        ((page, page_total), w2) \<Rightarrow>
          (case present env page of
             Inl e \<Rightarrow> (Inl e, w2)
           | Inr result \<Rightarrow>
               (Inr \<lparr>resp_total = page_total, resp_suggestions = result,
                     resp_filters_applied = ByQuery (build_query req)\<rparr>, w2)))"
  using assms by (simp add: get_suggestions_def Let_def)

lemma backfill_page_length:
  assumes "length suggestions \<le> effective_limit req"
  shows "length (fst (fst (backfill env req suggestions found w))) \<le> effective_limit req"
  using assms
  by (auto simp add: backfill_def Let_def run_query_length split: prod.splits sum.splits)

lemma lookup_by_id_size:
  "lookup_by_id env sid w = Inr resp \<Longrightarrow> length (resp_suggestions resp) = 1"
  by (auto simp add: lookup_by_id_def split: if_splits option.splits sum.splits
      dest!: present_length)

lemma stamp_then_insert:
  assumes st: "stamp env mark 0 batch w1 = (stamped, w2)"
  shows "\<exists>added. store (insert_many env stamped w2) = store w1 @ added
     \<and> length added = length batch
     \<and> (\<forall>j < length batch.
           (added ! j) ''is_featured'' = Some (PBool (mark j))
         \<and> (added ! j) ''created_at'' = Some (PDateTime (clock env (ticks w1 + 2 * j)))
         \<and> (added ! j) ''updated_at'' = Some (PDateTime (clock env (Suc (ticks w1 + 2 * j))))
         \<and> (\<forall>k. k \<notin> {''is_featured'', ''created_at'', ''updated_at'', ''_id''} \<longrightarrow>
               (added ! j) k = (batch ! j) k))"
proof -
  have stamped: "stamped = fst (stamp env mark 0 batch w1)"
    and w2: "w2 = snd (stamp env mark 0 batch w1)" using st by simp_all
  have len: "length stamped = length batch" by (simp add: stamped stamp_length)
  have store2: "store w2 = store w1" by (simp add: w2 stamp_world)
  have nth: "stamped ! j =
       (batch ! j)(''created_at'' \<mapsto> PDateTime (clock env (ticks w1 + 2 * j)),
                   ''updated_at'' \<mapsto> PDateTime (clock env (Suc (ticks w1 + 2 * j))),
                   ''is_featured'' \<mapsto> PBool (mark j))" if "j < length batch" for j
    using stamp_nth [OF that, of env mark 0 w1] by (simp add: stamped)
  from insert_many_store [of env stamped w2] obtain added where added:
    "store (insert_many env stamped w2) = store w2 @ added" "length added = length stamped"
    "\<forall>j < length stamped. \<forall>k. k \<noteq> ''_id'' \<longrightarrow> (added ! j) k = (stamped ! j) k"
    by blast
  have "(added ! j) ''is_featured'' = Some (PBool (mark j))
         \<and> (added ! j) ''created_at'' = Some (PDateTime (clock env (ticks w1 + 2 * j)))
         \<and> (added ! j) ''updated_at'' = Some (PDateTime (clock env (Suc (ticks w1 + 2 * j))))
         \<and> (\<forall>k. k \<notin> {''is_featured'', ''created_at'', ''updated_at'', ''_id''} \<longrightarrow>
               (added ! j) k = (batch ! j) k)" if j: "j < length batch" for j
  proof -
    have same: "(added ! j) k = (stamped ! j) k" if "k \<noteq> ''_id''" for k
      using added(3) j len that by simp
    show ?thesis
      by (simp add: same nth [OF j])
  qed
  with added(1,2) len store2 show ?thesis by auto
qed


lemma seed_if_empty_store:
  assumes empty: "store w = []"
    and g: "generate_suggestions env None None None 12 w = (Inr batch, w1)"
  shows "length (store (seed_if_empty env w)) = length batch
     \<and> (\<forall>i < length batch.
           (store (seed_if_empty env w) ! i) ''is_featured'' = Some (PBool (i < 6))
         \<and> (store (seed_if_empty env w) ! i) ''created_at''
             = Some (PDateTime (clock env (ticks w + 2 * i)))
         \<and> (store (seed_if_empty env w) ! i) ''updated_at''
             = Some (PDateTime (clock env (Suc (ticks w + 2 * i))))
         \<and> (\<forall>k. k \<notin> {''is_featured'', ''created_at'', ''updated_at'', ''_id''} \<longrightarrow>
               (store (seed_if_empty env w) ! i) k = (batch ! i) k))"
proof -
  have w1: "w1 = w\<lparr>prompts := prompts w @ [build_prompt None None None 12]\<rparr>"
    using generate_suggestions_world [of env None None None 12 w] g by simp
  obtain stamped w2 where st: "stamp env (\<lambda>i. i < 6) 0 batch w1 = (stamped, w2)"
    by (metis prod.exhaust)
  have len: "length stamped = length batch"
    using stamp_length [of env "\<lambda>i. i < 6" 0 batch w1] st by simp
  have seeded: "seed_if_empty env w = insert_many env stamped w2"
  proof (cases "stamped = []")
    case True
    with empty g st show ?thesis by (simp add: seed_if_empty_def)
  next
    case False
    with empty g st show ?thesis by (simp add: seed_if_empty_def)
  qed
  from stamp_then_insert [OF st] obtain added where added:
    "store (insert_many env stamped w2) = store w1 @ added" "length added = length batch"
    "\<forall>j < length batch.
           (added ! j) ''is_featured'' = Some (PBool (j < 6))
         \<and> (added ! j) ''created_at'' = Some (PDateTime (clock env (ticks w1 + 2 * j)))
         \<and> (added ! j) ''updated_at'' = Some (PDateTime (clock env (Suc (ticks w1 + 2 * j))))
         \<and> (\<forall>k. k \<notin> {''is_featured'', ''created_at'', ''updated_at'', ''_id''} \<longrightarrow>
               (added ! j) k = (batch ! j) k)"
    by blast
  have "store (seed_if_empty env w) = added"
    using added(1) seeded w1 empty by simp
  with added(2,3) w1 show ?thesis by simp
qed


lemma listing_world:
  assumes "\<not> truthy (suggestion_id req)"
  shows "snd (get_suggestions env req w) =
     (if count_documents (build_query req) (store (seed_if_empty env w)) = 0 \<and> has_filters req
      then snd (backfill env req
                  (run_query env (build_query req) (skip req) (effective_limit req)
                     (store (seed_if_empty env w)))
                  (count_documents (build_query req) (store (seed_if_empty env w)))
                  (seed_if_empty env w))
      else seed_if_empty env w)"
  unfolding get_suggestions_listing [OF assms]
  by (auto split: prod.splits sum.splits)

lemma listing_result:
  assumes "\<not> truthy (suggestion_id req)"
    and "fst (get_suggestions env req w) = Inr resp"
  shows "resp_total resp =
      snd (if count_documents (build_query req) (store (seed_if_empty env w)) = 0 \<and> has_filters req
          then fst (backfill env req
                  (run_query env (build_query req) (skip req) (effective_limit req)
                     (store (seed_if_empty env w)))
                  (count_documents (build_query req) (store (seed_if_empty env w)))
                  (seed_if_empty env w))
          else (run_query env (build_query req) (skip req) (effective_limit req)
                     (store (seed_if_empty env w)),
                count_documents (build_query req) (store (seed_if_empty env w))))"
    and "present env
      (fst (if count_documents (build_query req) (store (seed_if_empty env w)) = 0 \<and> has_filters req
          then fst (backfill env req
                  (run_query env (build_query req) (skip req) (effective_limit req)
                     (store (seed_if_empty env w)))
                  (count_documents (build_query req) (store (seed_if_empty env w)))
                  (seed_if_empty env w))
          else (run_query env (build_query req) (skip req) (effective_limit req)
                     (store (seed_if_empty env w)),
                count_documents (build_query req) (store (seed_if_empty env w)))))
      = Inr (resp_suggestions resp)"
  using assms(2) unfolding get_suggestions_listing [OF assms(1)]
  by (auto split: prod.splits sum.splits if_splits)

lemma backfill_generated:
  assumes g: "generate_suggestions env (category req) (budget req) (continent req)
                (min (effective_limit req) 6) w1 = (Inr batch, w2)"
    and ne: "batch \<noteq> []"
  shows "fst (backfill env req suggestions found w1) =
           (run_query env (build_query req) 0 (effective_limit req)
              (store (snd (backfill env req suggestions found w1))),
            length (run_query env (build_query req) 0 (effective_limit req)
              (store (snd (backfill env req suggestions found w1)))))"
    and "\<exists>added. store (snd (backfill env req suggestions found w1)) = store w1 @ added
       \<and> length added = length batch
       \<and> (\<forall>i < length batch.
             (added ! i) ''is_featured'' = Some (PBool False)
           \<and> (added ! i) ''created_at'' = Some (PDateTime (clock env (ticks w1 + 2 * i)))
           \<and> (added ! i) ''updated_at'' = Some (PDateTime (clock env (Suc (ticks w1 + 2 * i))))
           \<and> (\<forall>k. k \<notin> {''is_featured'', ''created_at'', ''updated_at'', ''_id''} \<longrightarrow>
                 (added ! i) k = (batch ! i) k))"
proof -
  have w2: "w2 = w1\<lparr>prompts := prompts w1 @ [build_prompt (category req) (budget req)
      (continent req) (min (effective_limit req) 6)]\<rparr>"
    using generate_suggestions_world [of env "category req" "budget req" "continent req"
        "min (effective_limit req) 6" w1] g by simp
  obtain stamped w3 where st: "stamp env (\<lambda>i. False) 0 batch w2 = (stamped, w3)"
    by (metis prod.exhaust)
  have "length stamped = length batch"
    using stamp_length [of env "\<lambda>i. False" 0 batch w2] st by simp
  with ne have sne: "stamped \<noteq> []" by auto
  have bf: "backfill env req suggestions found w1 =
      ((run_query env (build_query req) 0 (effective_limit req) (store (insert_many env stamped w3)),
        length (run_query env (build_query req) 0 (effective_limit req)
                  (store (insert_many env stamped w3)))),
       insert_many env stamped w3)"
    using g st sne by (simp add: backfill_def Let_def)
  show "fst (backfill env req suggestions found w1) =
           (run_query env (build_query req) 0 (effective_limit req)
              (store (snd (backfill env req suggestions found w1))),
            length (run_query env (build_query req) 0 (effective_limit req)
              (store (snd (backfill env req suggestions found w1)))))"
    by (simp add: bf)
  from stamp_then_insert [OF st] obtain added where added:
    "store (insert_many env stamped w3) = store w2 @ added" "length added = length batch"
    "\<forall>j < length batch.
           (added ! j) ''is_featured'' = Some (PBool False)
         \<and> (added ! j) ''created_at'' = Some (PDateTime (clock env (ticks w2 + 2 * j)))
         \<and> (added ! j) ''updated_at'' = Some (PDateTime (clock env (Suc (ticks w2 + 2 * j))))
         \<and> (\<forall>k. k \<notin> {''is_featured'', ''created_at'', ''updated_at'', ''_id''} \<longrightarrow>
               (added ! j) k = (batch ! j) k)"
    by blast
  have "store (snd (backfill env req suggestions found w1)) = store w1 @ added"
    using added(1) w2 by (simp add: bf)
  with added(2,3) w2
  show "\<exists>added. store (snd (backfill env req suggestions found w1)) = store w1 @ added
       \<and> length added = length batch
       \<and> (\<forall>i < length batch.
             (added ! i) ''is_featured'' = Some (PBool False)
           \<and> (added ! i) ''created_at'' = Some (PDateTime (clock env (ticks w1 + 2 * i)))
           \<and> (added ! i) ''updated_at'' = Some (PDateTime (clock env (Suc (ticks w1 + 2 * i))))
           \<and> (\<forall>k. k \<notin> {''is_featured'', ''created_at'', ''updated_at'', ''_id''} \<longrightarrow>
                 (added ! i) k = (batch ! i) k))"
    by auto
qed

lemma backfill_nothing:
  assumes "generate_suggestions env (category req) (budget req) (continent req)
             (min (effective_limit req) 6) w1 = (r, w2)"
    and "r = Inr [] \<or> (\<exists>e. r = Inl e)"
  shows "fst (backfill env req suggestions found w1) = (suggestions, found)"
    and "store (snd (backfill env req suggestions found w1)) = store w1"
proof -
  have w2: "w2 = w1\<lparr>prompts := prompts w1 @ [build_prompt (category req) (budget req)
      (continent req) (min (effective_limit req) 6)]\<rparr>"
    using generate_suggestions_world [of env "category req" "budget req" "continent req"
        "min (effective_limit req) 6" w1] assms(1) by simp
  show "fst (backfill env req suggestions found w1) = (suggestions, found)"
    using assms by (auto simp add: backfill_def)
  show "store (snd (backfill env req suggestions found w1)) = store w1"
    using assms w2 by (auto simp add: backfill_def)
qed

lemma example_aenv_simps:
  "llm_reply (example_aenv reply decoded) n p = reply"
  "json_loads (example_aenv reply decoded) s = decoded"
  "sort_rating (example_aenv reply decoded) = by_rating"
  "suggested_trip (example_aenv reply decoded) = Some"
  by (simp_all add: example_aenv_def del: str_nat.simps)

lemma by_rating_length: "length (by_rating xs) = length xs"
  by (simp add: by_rating_def)

lemma by_rating_set: "set (by_rating xs) = set xs"
  by (simp add: by_rating_def)

lemma generate_suggestions_decoded:
  assumes "llm_reply env (length (prompts w)) (build_prompt c b k n) = Inr reply"
    and "json_loads env (strip_fence reply) = Inr decoded"
    and "decoded_records decoded = Some ds"
  shows "generate_suggestions env c b k n w =
     (Inr (map (repair env) ds), w\<lparr>prompts := prompts w @ [build_prompt c b k n]\<rparr>)"
  using assms by (simp add: generate_suggestions_def Let_def)

lemma repair_other:
  assumes "k \<notin> {''is_featured'', ''created_at'', ''updated_at'', ''rating'', ''duration_days''}"
  shows "repair env d k = d k"
  using assms by (simp add: repair_def Let_def)

lemma those_defined:
  assumes "\<forall>x \<in> set xs. f x \<noteq> None"
  shows "\<exists>ys. those (map f xs) = Some ys"
  using assms by (induction xs) (auto split: option.splits)

lemma present_accepting:
  assumes accept: "suggested_trip env = Some"
    and ids: "\<forall>d \<in> set page. d ''_id'' \<noteq> None"
  shows "\<exists>result. present env page = Inr result \<and> length result = length page"
proof -
  have id_kept: "normalize_suggestion_data d ''_id'' = d ''_id''" for d
    by (rule normalize_other) (simp add: array_fields_def)
  have "\<forall>d \<in> set page. with_text_id env d \<noteq> None"
    using ids by (auto simp add: with_text_id_def Let_def id_kept)
  then obtain normalized where n: "those (map (with_text_id env) page) = Some normalized"
    using those_defined by blast
  then have "present env page = Inr normalized"
    by (simp add: present_def accept those_map_Some)
  moreover have "length normalized = length page"
    using those_length [OF n] by simp
  ultimately show ?thesis by blast
qed


lemma count_documents_all:
  assumes "\<forall>i < length ds. matches q (ds ! i)"
  shows "count_documents q ds = length ds"
proof -
  have "\<forall>d \<in> set ds. matches q d" using assms by (auto simp add: in_set_conv_nth)
  then show ?thesis by (simp add: count_documents_def)
qed


lemma run_query_size:
  assumes "\<forall>xs. length (sort_rating env xs) = length xs"
  shows "length (run_query env q s n docs) = min n (count_documents q docs - s)"
  using assms by (simp add: run_query_def count_documents_def min.commute)

lemma run_query_subset:
  assumes "\<forall>xs. set (sort_rating env xs) = set xs"
  shows "set (run_query env q s n docs) \<subseteq> set docs"
proof -
  have "set (run_query env q s n docs) \<subseteq> set (sort_rating env (filter (matches q) docs))"
    unfolding run_query_def by (meson set_take_subset set_drop_subset subset_trans)
  then show ?thesis using assms by auto
qed

lemma insert_many_ids:
  assumes "\<forall>d \<in> set (store w). d ''_id'' \<noteq> None"
  shows "\<forall>d \<in> set (store (insert_many env ds w)). d ''_id'' \<noteq> None"
  using assms
proof (induction ds arbitrary: w)
  case Nil
  then show ?case by simp
next
  case (Cons a ds)
  show ?case
  proof (cases "a ''_id'' = None")
    case True
    let ?w' = "w\<lparr>store := store w @ [a(''_id'' \<mapsto> PObjectId (new_object_id env (ids_issued w)))],
                ids_issued := Suc (ids_issued w)\<rparr>"
    have "\<forall>d \<in> set (store ?w'). d ''_id'' \<noteq> None" using Cons.prems by simp
    from Cons.IH [OF this] True show ?thesis by simp
  next
    case False
    let ?w' = "w\<lparr>store := store w @ [a]\<rparr>"
    have "\<forall>d \<in> set (store ?w'). d ''_id'' \<noteq> None" using Cons.prems False by simp
    from Cons.IH [OF this] False show ?thesis by auto
  qed
qed

lemma seed_if_empty_ids:
  assumes "\<forall>d \<in> set (store w). d ''_id'' \<noteq> None"
  shows "\<forall>d \<in> set (store (seed_if_empty env w)). d ''_id'' \<noteq> None"
proof -
  obtain r w1 where g: "generate_suggestions env None None None 12 w = (r, w1)"
    by (metis prod.exhaust)
  then have w1: "store w1 = store w"
    using generate_suggestions_world [of env None None None 12 w] by simp
  show ?thesis
  proof (cases r)
    case (Inl e)
    with g w1 assms show ?thesis by (simp add: seed_if_empty_def)
  next
    case (Inr batch)
    obtain stamped w2 where st: "stamp env (\<lambda>i. i < 6) 0 batch w1 = (stamped, w2)"
      by (metis prod.exhaust)
    then have "store w2 = store w1"
      using stamp_world [of env "\<lambda>i. i < 6" 0 batch w1] by simp
    with w1 assms have ids2: "\<forall>d \<in> set (store w2). d ''_id'' \<noteq> None" by simp
    from insert_many_ids [OF ids2] g Inr st ids2 assms show ?thesis
      by (simp add: seed_if_empty_def)
  qed
qed

lemma backfill_ids:
  assumes "\<forall>d \<in> set (store w). d ''_id'' \<noteq> None"
  shows "\<forall>d \<in> set (store (snd (backfill env req page found w))). d ''_id'' \<noteq> None"
proof -
  let ?n = "min (effective_limit req) 6"
  obtain r w1 where g:
    "generate_suggestions env (category req) (budget req) (continent req) ?n w = (r, w1)"
    by (metis prod.exhaust)
  then have w1: "store w1 = store w"
    using generate_suggestions_world [of env "category req" "budget req" "continent req" ?n w]
    by simp
  show ?thesis
  proof (cases r)
    case (Inl e)
    with g w1 assms show ?thesis by (simp add: backfill_def)
  next
    case (Inr batch)
    obtain stamped w2 where st: "stamp env (\<lambda>i. False) 0 batch w1 = (stamped, w2)"
      by (metis prod.exhaust)
    then have "store w2 = store w1"
      using stamp_world [of env "\<lambda>i. False" 0 batch w1] by simp
    with w1 assms have ids2: "\<forall>d \<in> set (store w2). d ''_id'' \<noteq> None" by simp
    from insert_many_ids [OF ids2] g Inr st ids2 show ?thesis
      by (simp add: backfill_def Let_def)
  qed
qed

lemma backfill_page_subset:
  assumes perm: "\<forall>xs. set (sort_rating env xs) = set xs"
    and page: "set page \<subseteq> set (store w)"
  shows "set (fst (fst (backfill env req page found w)))
           \<subseteq> set (store (snd (backfill env req page found w)))"
proof -
  let ?n = "min (effective_limit req) 6"
  obtain r w1 where g:
    "generate_suggestions env (category req) (budget req) (continent req) ?n w = (r, w1)"
    by (metis prod.exhaust)
  show ?thesis
  proof (cases "\<exists>batch. r = Inr batch \<and> batch \<noteq> []")
    case True
    then obtain batch where r: "r = Inr batch" and ne: "batch \<noteq> []" by blast
    from backfill_generated(1) [OF g [unfolded r] ne, of page found]
    show ?thesis by (simp add: run_query_subset [OF perm])
  next
    case False
    then have none: "r = Inr [] \<or> (\<exists>e. r = Inl e)" by (cases r) auto
    from backfill_nothing [OF g none, of page found] page show ?thesis by simp
  qed
qed

lemma listing_responds:
  assumes accept: "suggested_trip env = Some"
    and perm: "\<forall>xs. set (sort_rating env xs) = set xs"
    and noid: "\<not> truthy (suggestion_id req)"
    and ids: "\<forall>d \<in> set (store w). d ''_id'' \<noteq> None"
  shows "\<exists>resp. fst (get_suggestions env req w) = Inr resp"
proof -
  let ?q = "build_query req"
  let ?w1 = "seed_if_empty env w"
  let ?first = "run_query env ?q (skip req) (effective_limit req) (store ?w1)"
  let ?found = "count_documents ?q (store ?w1)"
  let ?sel = "if ?found = 0 \<and> has_filters req
            then backfill env req ?first ?found ?w1
            else ((?first, ?found), ?w1)"
  have ids1: "\<forall>d \<in> set (store ?w1). d ''_id'' \<noteq> None"
    using ids by (rule seed_if_empty_ids)
  have first: "set ?first \<subseteq> set (store ?w1)"
    by (rule run_query_subset [OF perm])
  have "set (fst (fst ?sel)) \<subseteq> set (store (snd ?sel))"
    using backfill_page_subset [OF perm first] first by simp
  moreover have "\<forall>d \<in> set (store (snd ?sel)). d ''_id'' \<noteq> None"
    using backfill_ids [OF ids1] ids1 by simp
  ultimately have "\<forall>d \<in> set (fst (fst ?sel)). d ''_id'' \<noteq> None" by blast
  from present_accepting [OF accept this] obtain result where
    "present env (fst (fst ?sel)) = Inr result" by blast
  then show ?thesis
    unfolding get_suggestions_listing [OF noid]
    by (cases ?sel) (auto split: prod.splits)
qed








lemma those_map_Some_fun: "those (map (\<lambda>x. Some (f x)) xs) = Some (map f xs)"
  by (induction xs) auto

lemma twelve_decoded: "decoded_records twelve_trips = Some twelve_records"
  by (simp add: twelve_trips_def twelve_records_def example_trip_def comp_def those_map_Some_fun
      del: str_nat.simps upt_Suc)

lemma twelve_records_length: "length twelve_records = 12"
  by (simp add: twelve_records_def del: str_nat.simps)

lemma twelve_records_category:
  "i < 12 \<Longrightarrow> (twelve_records ! i) ''category'' = Some (PList [PStr ''culture'', PStr ''food''])"
  by (simp add: twelve_records_def example_trip_fields_def del: str_nat.simps upt_Suc)

lemma lower_Culture: "lower ''Culture'' = ''culture''"
  by code_simp

lemma empty_world_facts:
  "store empty_world = []" "prompts empty_world = []" "ticks empty_world = 0"
  by (simp_all add: empty_world_def)

lemma twelve_generated:
  "generate_suggestions (example_aenv (Inr ''[twelve trips]'') (Inr twelve_trips)) None None None 12
     empty_world
   = (Inr (map (repair (example_aenv (Inr ''[twelve trips]'') (Inr twelve_trips))) twelve_records),
      empty_world\<lparr>prompts := prompts empty_world @ [build_prompt None None None 12]\<rparr>)"
  by (rule generate_suggestions_decoded [where reply = "''[twelve trips]''" and decoded = twelve_trips])
     (simp_all add: example_aenv_simps twelve_decoded)

lemma twelve_seeded:
  defines "env \<equiv> example_aenv (Inr ''[twelve trips]'') (Inr twelve_trips)"
  shows "length (store (seed_if_empty env empty_world)) = 12"
    and "\<forall>i < 12. (store (seed_if_empty env empty_world) ! i) ''is_featured'' = Some (PBool (i < 6))"
    and "\<forall>i < 12. (store (seed_if_empty env empty_world) ! i) ''category''
            = Some (PList [PStr ''culture'', PStr ''food''])"
    and "\<forall>d \<in> set (store (seed_if_empty env empty_world)). d ''_id'' \<noteq> None"
proof -
  note g = twelve_generated [folded env_def]
  note seeded = seed_if_empty_store [OF empty_world_facts(1) g]
  have len: "length (map (repair env) twelve_records) = 12"
    by (simp add: twelve_records_length)
  show "length (store (seed_if_empty env empty_world)) = 12"
    using seeded len by simp
  show "\<forall>i < 12. (store (seed_if_empty env empty_world) ! i) ''is_featured'' = Some (PBool (i < 6))"
    using seeded len by simp
  show "\<forall>i < 12. (store (seed_if_empty env empty_world) ! i) ''category''
            = Some (PList [PStr ''culture'', PStr ''food''])"
  proof (intro allI impI)
    fix i :: nat assume i: "i < 12"
    have "(store (seed_if_empty env empty_world) ! i) ''category''
        = (map (repair env) twelve_records ! i) ''category''"
      using seeded i len by simp
    also have "\<dots> = repair env (twelve_records ! i) ''category''"
      using i by (simp add: nth_map [of i twelve_records] twelve_records_length)
    also have "\<dots> = (twelve_records ! i) ''category''"
      by (rule repair_other) simp
    finally show "(store (seed_if_empty env empty_world) ! i) ''category''
            = Some (PList [PStr ''culture'', PStr ''food''])"
      using twelve_records_category [OF i] by simp
  qed
  show "\<forall>d \<in> set (store (seed_if_empty env empty_world)). d ''_id'' \<noteq> None"
    by (rule seed_if_empty_ids) (simp add: empty_world_facts)
qed

lemma twelve_listing:
  defines "env \<equiv> example_aenv (Inr ''[twelve trips]'') (Inr twelve_trips)"
  assumes noid: "\<not> truthy (suggestion_id req)"
    and found: "count_documents (build_query req) (store (seed_if_empty env empty_world)) = n"
    and n: "n \<noteq> 0"
  shows "\<exists>resp. fst (get_suggestions env req empty_world) = Inr resp
     \<and> resp_total resp = n
     \<and> length (resp_suggestions resp) = min (effective_limit req) (n - skip req)
     \<and> store (snd (get_suggestions env req empty_world)) = store (seed_if_empty env empty_world)"
proof -
  have accept: "suggested_trip env = Some"
    and perm: "\<forall>xs. set (sort_rating env xs) = set xs"
    and len: "\<forall>xs. length (sort_rating env xs) = length xs"
    unfolding env_def by (simp_all add: example_aenv_simps by_rating_set by_rating_length)
  have ids: "\<forall>d \<in> set (store empty_world). d ''_id'' \<noteq> None"
    by (simp add: empty_world_facts)
  from listing_responds [OF accept perm noid ids]
  obtain resp where resp: "fst (get_suggestions env req empty_world) = Inr resp" by blast
  have total: "resp_total resp = n"
    using listing_result(1) [OF noid resp] found n by simp
  have "present env (run_query env (build_query req) (skip req) (effective_limit req)
          (store (seed_if_empty env empty_world))) = Inr (resp_suggestions resp)"
    using listing_result(2) [OF noid resp] found n by simp
  from present_length [OF this]
  have size: "length (resp_suggestions resp) = min (effective_limit req) (n - skip req)"
    by (simp add: run_query_size [OF len] found)
  have "store (snd (get_suggestions env req empty_world)) = store (seed_if_empty env empty_world)"
    using listing_world [OF noid, of env empty_world] found n by simp
  with resp total size show ?thesis by blast
qed


text \<open>
  C5.  Whenever the route answers with a page, the page holds at most the effective limit
  of records: at most \<open>min(limit, 10)\<close> when a filter is supplied, however many records
  match in the store; without a filter the effective limit is the requested limit itself,
  and the page is the window of that size over the whole collection.
\<close>

theorem page_size_bound:
  assumes ok: "fst (get_suggestions env req w) = Inr resp"
    and lim: "1 \<le> limit req"
  shows "length (resp_suggestions resp) \<le> effective_limit req
       \<and> (has_filters req \<longrightarrow> length (resp_suggestions resp) \<le> min (limit req) 10)
       \<and> (\<not> has_filters req \<longrightarrow> effective_limit req = limit req)
       \<and> (\<not> has_filters req \<longrightarrow> \<not> truthy (suggestion_id req) \<longrightarrow>
            present env (run_query env [] (skip req) (limit req) (store (seed_if_empty env w)))
              = Inr (resp_suggestions resp))"
proof -
  have bound: "length (resp_suggestions resp) \<le> effective_limit req"
  proof (cases "truthy (suggestion_id req)")
    case True
    then obtain sid where sid: "suggestion_id req = Some sid" by (cases "suggestion_id req") auto
    with True ok have "lookup_by_id env sid w = Inr resp"
      by (simp add: get_suggestions_def)
    then have "length (resp_suggestions resp) = 1" by (rule lookup_by_id_size)
    moreover have "1 \<le> effective_limit req" using lim by (simp add: effective_limit_def)
    ultimately show ?thesis by simp
  next
    case False
    let ?q = "build_query req"
    let ?w1 = "seed_if_empty env w"
    let ?first = "run_query env ?q (skip req) (effective_limit req) (store ?w1)"
    let ?sel = "if count_documents ?q (store ?w1) = 0 \<and> has_filters req
            then backfill env req ?first (count_documents ?q (store ?w1)) ?w1
            else ((?first, count_documents ?q (store ?w1)), ?w1)"
    obtain page page_total w2 where sel: "?sel = ((page, page_total), w2)"
      by (metis prod.exhaust)
    have "length (fst (fst ?sel)) \<le> effective_limit req"
      by (simp add: backfill_page_length run_query_length)
    then have page: "length page \<le> effective_limit req" using sel by simp
    from ok have "present env page = Inr (resp_suggestions resp)"
      unfolding get_suggestions_listing [OF False] sel by (auto split: sum.splits)
    then have "length (resp_suggestions resp) = length page" by (rule present_length)
    with page show ?thesis by simp
  qed
  moreover have "\<not> has_filters req \<longrightarrow> \<not> truthy (suggestion_id req) \<longrightarrow>
      present env (run_query env [] (skip req) (limit req) (store (seed_if_empty env w)))
        = Inr (resp_suggestions resp)"
  proof (intro impI)
    assume nf: "\<not> has_filters req" and noid: "\<not> truthy (suggestion_id req)"
    from nf have q: "build_query req = []" by (simp add: has_filters_query)
    from ok show "present env (run_query env [] (skip req) (limit req) (store (seed_if_empty env w)))
        = Inr (resp_suggestions resp)"
      unfolding get_suggestions_listing [OF noid]
      using nf q by (auto simp add: effective_limit_def split: sum.splits)
  qed
  ultimately show ?thesis by (auto simp add: effective_limit_def)
qed

text \<open>
  Twelve stored trips match the category, fifty are asked for, ten are returned.
\<close>

theorem page_size_bound_witness:
  "1 \<le> limit (plain_request\<lparr>category := Some ''Culture'', limit := 50\<rparr>)
   \<and> has_filters (plain_request\<lparr>category := Some ''Culture'', limit := 50\<rparr>)
   \<and> response_total (fst (get_suggestions (example_aenv (Inr ''[twelve trips]'') (Inr twelve_trips))
       (plain_request\<lparr>category := Some ''Culture'', limit := 50\<rparr>) empty_world)) = Some 12
   \<and> response_size (fst (get_suggestions (example_aenv (Inr ''[twelve trips]'') (Inr twelve_trips))
       (plain_request\<lparr>category := Some ''Culture'', limit := 50\<rparr>) empty_world)) = Some 10
   \<and> (10::nat) \<le> min 50 10"
proof -
  let ?env = "example_aenv (Inr ''[twelve trips]'') (Inr twelve_trips)"
  let ?req = "plain_request\<lparr>category := Some ''Culture'', limit := 50\<rparr>"
  have noid: "\<not> truthy (suggestion_id ?req)" and lim: "1 \<le> limit ?req"
    and filt: "has_filters ?req" and limit: "limit ?req = 50"
    and q: "build_query ?req = [CategoryIn ''culture'']"
    by (simp_all add: plain_request_def build_query_def has_filters_def lower_Culture)
  have "\<forall>i < length (store (seed_if_empty ?env empty_world)).
      matches [CategoryIn ''culture''] (store (seed_if_empty ?env empty_world) ! i)"
    by (simp add: twelve_seeded matches_def)
  then have found: "count_documents (build_query ?req) (store (seed_if_empty ?env empty_world)) = 12"
    using count_documents_all [of "store (seed_if_empty ?env empty_world)" "[CategoryIn ''culture'']"]
    by (simp add: q twelve_seeded)
  from twelve_listing [OF noid found] obtain resp where
    resp: "fst (get_suggestions ?env ?req empty_world) = Inr resp" and total: "resp_total resp = 12"
    by auto
  from page_size_bound [OF resp lim] filt
  have bound: "length (resp_suggestions resp) \<le> min (limit ?req) 10" by blast
  from twelve_listing [OF noid found] resp
  have "length (resp_suggestions resp) = min (effective_limit ?req) (12 - skip ?req)" by auto
  then have size: "length (resp_suggestions resp) = 10"
    using filt by (simp add: effective_limit_def plain_request_def)
  show ?thesis
    using resp total size bound lim filt
    by (simp add: response_total_def response_size_def)
qed










end
